theory Spec2Isabelle
  imports Main "HOL-Library.Word"
begin

section \<open>GoHue \<open>light.go\<close>: data model\<close>

text \<open>
  The source file holds two revisions of \<open>light.go\<close>. The mutator \<open>Light.SetState\<close> and
  \<open>Light.Blink\<close> are taken from the first (lines 107-193), the discovery functions
  \<open>GetAllLights\<close>, \<open>GetLightByIndex\<close> and \<open>GetLightByName\<close> from the second (lines 341-390).
  \<open>Light.SetState\<close> calls \<open>light.Bridge.GetLightByIndex(light.Index)\<close>; that is the
  function \<open>GetLightByIndex(bridge, index)\<close> of lines 358-379, as \<open>SetLightState\<close> of the
  second revision calls it.

  A Go \<open>float32\<close> is carried as its IEEE-754 bit pattern; no arithmetic is done on it.
  A Go \<open>int\<close> is an \<open>int\<close>, with the 64-bit wrap-around written out at the one place
  where a product is formed (\<open>seconds*2\<close> in \<open>Blink\<close>).
\<close>

type_synonym float32 = "32 word"

text \<open>
  The \<open>Bridge\<close> struct is declared outside \<open>light.go\<close>; the only field this file reads is
  \<open>Username\<close>. A \<open>*Bridge\<close> held in a struct field is a \<open>Bridge option\<close>, \<open>None\<close> being
  \<open>nil\<close>; nothing in \<open>light.go\<close> writes through the pointer.
\<close>

record Bridge =
  Username :: string

text \<open>
  Go errors. \<open>ErrorsNew m\<close> is \<open>errors.New(m)\<close>; \<open>BridgeError\<close> is whatever error the
  transport (\<open>Bridge.Get\<close>, \<open>Bridge.Put\<close>) hands back; \<open>UnmarshalError\<close> is an error of
  \<open>json.Unmarshal\<close>.
\<close>

datatype error = BridgeError string | ErrorsNew string | UnmarshalError string

text \<open>The anonymous struct of the field \<open>Light.State\<close>.\<close>

record LightAttrs =
  On :: bool
  Bri :: int
  Hue :: int
  Saturation :: int
  Effect :: string
  XY :: "float32 \<times> float32"
  CT :: int
  Alert :: string
  ColorMode :: string
  Reachable :: bool

record Light =
  State :: LightAttrs
  Type :: string
  Name :: string
  ModelID :: string
  ManufacturerName :: string
  UniqueID :: string
  SWVersion :: string
  Index :: int
  Bridge :: "Bridge option"

text \<open>
  \<open>LightState\<close>, the patch sent by \<open>SetState\<close> (lines 41-57). Its fields carry the prefix
  \<open>ls\<close>, since \<open>On\<close>, \<open>Bri\<close>, ... already name the fields of \<open>Light.State\<close>. The two
  \<open>*[2]float32\<close> fields are options (\<open>None\<close> is \<open>nil\<close>).
\<close>

record LightState =
  lsOn :: bool
  lsBri :: "8 word"
  lsHue :: "16 word"
  lsSat :: "8 word"
  lsXY :: "(float32 \<times> float32) option"
  lsCT :: "16 word"
  lsEffect :: string
  lsAlert :: string
  lsTransitionTime :: string
  lsSaturationIncrement :: "16 word"
  lsHueIncrement :: "32 word"
  lsBrightnessIncrement :: "16 word"
  lsCTIncrement :: "32 word"
  lsXYIncrement :: "(float32 \<times> float32) option"
  lsName :: string

text \<open>The zero values \<open>Light{}\<close> and \<open>LightState{}\<close>.\<close>

definition LightAttrs_zero :: LightAttrs where
  "LightAttrs_zero =
     \<lparr>On = False, Bri = 0, Hue = 0, Saturation = 0, Effect = [], XY = (0, 0), CT = 0,
      Alert = [], ColorMode = [], Reachable = False\<rparr>"

definition Light_zero :: Light where
  "Light_zero =
     \<lparr>State = LightAttrs_zero, Type = [], Name = [], ModelID = [], ManufacturerName = [],
      UniqueID = [], SWVersion = [], Index = 0, Bridge = None\<rparr>"

definition LightState_zero :: LightState where
  "LightState_zero =
     \<lparr>lsOn = False, lsBri = 0, lsHue = 0, lsSat = 0, lsXY = None, lsCT = 0, lsEffect = [],
      lsAlert = [], lsTransitionTime = [], lsSaturationIncrement = 0, lsHueIncrement = 0,
      lsBrightnessIncrement = 0, lsCTIncrement = 0, lsXYIncrement = None, lsName = []\<rparr>"

section \<open>The collaborators\<close>

text \<open>
  Everything \<open>light.go\<close> calls and does not define is a field of the environment; \<open>'w\<close> is
  the state of the world outside the process (the bridge, the lamps, the clock, the log).
  \<^item> \<open>Get bridge uri\<close> is \<open>bridge.Get(uri)\<close>: the body or the error, and the world after it.
  \<^item> \<open>Put bridge uri newState\<close> is \<open>bridge.Put(uri, newState)\<close>: only its error is read.
  \<^item> \<open>Unmarshal body light\<close> is \<open>json.Unmarshal(body, &light)\<close>: the struct as the decoder
    leaves it, and the error.
  \<^item> \<open>Trace message err\<close> is \<open>trace(message, err)\<close>, the repository's logger.
  \<^item> \<open>Sleep d\<close> is \<open>time.Sleep(d)\<close>, \<open>d\<close> in nanoseconds.
\<close>

record 'w env =
  Get :: "Bridge \<Rightarrow> string \<Rightarrow> 'w \<Rightarrow> (string \<times> error option) \<times> 'w"
  Put :: "Bridge \<Rightarrow> string \<Rightarrow> LightState \<Rightarrow> 'w \<Rightarrow> error option \<times> 'w"
  Unmarshal :: "string \<Rightarrow> Light \<Rightarrow> Light \<times> error option"
  Trace :: "string \<Rightarrow> error \<Rightarrow> 'w \<Rightarrow> 'w"
  Sleep :: "nat \<Rightarrow> 'w \<Rightarrow> 'w"

section \<open>Library functions used by the source\<close>

text \<open>\<open>strings.HasPrefix\<close> and \<open>strings.Contains\<close> on byte strings.\<close>

fun HasPrefix :: "string \<Rightarrow> string \<Rightarrow> bool" where
  "HasPrefix s [] = True"
| "HasPrefix [] (p # ps) = False"
| "HasPrefix (c # s) (p # ps) = (c = p \<and> HasPrefix s ps)"

fun Contains :: "string \<Rightarrow> string \<Rightarrow> bool" where
  "Contains [] substr = (substr = [])"
| "Contains (c # s) substr = (HasPrefix (c # s) substr \<or> Contains s substr)"

text \<open>The verb \<open>%d\<close> of \<open>fmt.Sprintf\<close>: a decimal numeral, with a minus sign below zero.\<close>

fun digits :: "nat \<Rightarrow> string" where
  "digits n =
     (if n < 10 then [char_of (48 + n)] else digits (n div 10) @ [char_of (48 + n mod 10)])"

definition FormatInt :: "int \<Rightarrow> string" where
  "FormatInt i = (if i < 0 then CHR ''-'' # digits (nat (- i)) else digits (nat i))"

section \<open>Discovery: \<open>GetLightByIndex\<close>, \<open>GetAllLights\<close>, \<open>GetLightByName\<close>\<close>

text \<open>
  A function with a parameter \<open>bridge *Bridge\<close> is modelled on the pointee: each of them
  reads \<open>bridge.Username\<close> before anything else, so a \<open>nil\<close> argument panics before any
  effect. A Go function returning \<open>(Light, error)\<close> returns the pair here too, since
  \<open>SetState\<close> stores the \<open>Light\<close> also when the error is set.
\<close>

definition GetLightByIndex ::
    "'w env \<Rightarrow> Bridge \<Rightarrow> int \<Rightarrow> 'w \<Rightarrow> (Light \<times> error option) \<times> 'w" where
  "GetLightByIndex env bridge index w =
     (let uri = ''/api/'' @ Username bridge @ ''/lights/'' @ FormatInt index in
      case Get env bridge uri w of
        ((body, Some err), w1) \<Rightarrow> ((Light_zero, Some err), w1)
      | ((body, None), w1) \<Rightarrow>
          if Contains body ''not available''
          then ((Light_zero, Some (ErrorsNew ''Index Error'')), w1)
          else
            (case Unmarshal env body Light_zero of
               (light, Some err) \<Rightarrow>
                 ((light\<lparr>Index := index, Bridge := Some bridge\<rparr>, None), Trace env [] err w1)
             | (light, None) \<Rightarrow>
                 ((light\<lparr>Index := index, Bridge := Some bridge\<rparr>, None), w1)))"

text \<open>
  The loop \<open>for index := 1; index < 101; index++\<close> of \<open>GetAllLights\<close>, with the slice
  built so far; \<open>break\<close> leaves it.
\<close>

function GetAllLights_loop ::
    "'w env \<Rightarrow> Bridge \<Rightarrow> int \<Rightarrow> Light list \<Rightarrow> 'w \<Rightarrow> Light list \<times> 'w" where
  "GetAllLights_loop env bridge index lights w =
     (if index < 101 then
        (case GetLightByIndex env bridge index w of
           ((light, Some err), w1) \<Rightarrow> (lights, w1)
         | ((light, None), w1) \<Rightarrow> GetAllLights_loop env bridge (index + 1) (lights @ [light]) w1)
      else (lights, w))"
  by pat_completeness auto
termination
  by (relation "measure (\<lambda>(env, bridge, index, lights, w). nat (101 - index))") auto

definition GetAllLights ::
    "'w env \<Rightarrow> Bridge \<Rightarrow> 'w \<Rightarrow> (Light list \<times> error option) \<times> 'w" where
  "GetAllLights env bridge w =
     (case GetAllLights_loop env bridge 1 [] w of (lights, w1) \<Rightarrow> ((lights, None), w1))"

text \<open>The loop \<open>for _, light := range lights\<close> of \<open>GetLightByName\<close> and what follows it.\<close>

fun GetLightByName_range :: "Light list \<Rightarrow> string \<Rightarrow> Light \<times> error option" where
  "GetLightByName_range [] name = (Light_zero, Some (ErrorsNew ''Light not found.''))"
| "GetLightByName_range (light # rest) name =
     (if Name light = name then (light, None) else GetLightByName_range rest name)"

definition GetLightByName ::
    "'w env \<Rightarrow> Bridge \<Rightarrow> string \<Rightarrow> 'w \<Rightarrow> (Light \<times> error option) \<times> 'w" where
  "GetLightByName env bridge name w =
     (case GetAllLights env bridge w of
        ((lights, _), w1) \<Rightarrow> (GetLightByName_range lights name, w1))"

section \<open>The mutator \<open>Light.SetState\<close> and \<open>Light.Blink\<close>\<close>

text \<open>
  A method on \<open>*Light\<close> takes the struct behind the receiver and returns it as the call
  leaves it, with the returned error and the world. The result \<open>None\<close> is the panic of
  \<open>light.Bridge.Username\<close> on a \<open>nil\<close> Bridge. The assignment
  \<open>*light, err = light.Bridge.GetLightByIndex(light.Index)\<close> stores both results, whatever
  the error is.
\<close>

definition SetState ::
    "'w env \<Rightarrow> LightState \<Rightarrow> Light \<Rightarrow> 'w \<Rightarrow> (error option \<times> Light \<times> 'w) option" where
  "SetState env newState light w =
     (case Bridge light of
        None \<Rightarrow> None
      | Some bridge \<Rightarrow>
          (let uri = ''/api/'' @ Username bridge @ ''/lights/'' @ FormatInt (Index light)
                       @ ''/state'' in
           case Put env bridge uri newState w of
             (Some err, w1) \<Rightarrow> Some (Some err, light, w1)
           | (None, w1) \<Rightarrow>
               (case GetLightByIndex env bridge (Index light) w1 of
                  ((light', Some err), w2) \<Rightarrow> Some (Some err, light', w2)
                | ((light', None), w2) \<Rightarrow> Some (None, light', w2))))"

definition blinkMax :: LightState where
  "blinkMax = LightState_zero\<lparr>lsOn := True, lsBri := 200\<rparr>"

definition blinkMin :: LightState where
  "blinkMin = LightState_zero\<lparr>lsOn := True, lsBri := 50\<rparr>"

text \<open>
  The loop \<open>for i := 0; i <= seconds*2; i++\<close> of \<open>Blink\<close>; \<open>limit\<close> is the value of
  \<open>seconds*2\<close>. \<open>i\<close> is never negative, so Go's \<open>i % 2\<close> is \<open>i mod 2\<close>; \<open>limit\<close> is an even
  64-bit value, so \<open>i++\<close> does not overflow. \<open>time.Second/2\<close> is 500000000 ns.
\<close>

function Blink_loop ::
    "'w env \<Rightarrow> int \<Rightarrow> int \<Rightarrow> Light \<Rightarrow> 'w \<Rightarrow> (error option \<times> Light \<times> 'w) option" where
  "Blink_loop env limit i light w =
     (if i \<le> limit then
        (if i mod 2 = 0 then
           (case SetState env blinkMax light w of
              None \<Rightarrow> None
            | Some (Some err, light1, w1) \<Rightarrow> Some (Some err, light1, w1)
            | Some (None, light1, w1) \<Rightarrow>
                Blink_loop env limit (i + 1) light1 (Sleep env 500000000 w1))
         else
           (case SetState env blinkMin light w of
              None \<Rightarrow> None
            | Some (Some err, light1, w1) \<Rightarrow> Some (Some err, light1, w1)
            | Some (None, light1, w1) \<Rightarrow>
                Blink_loop env limit (i + 1) light1 (Sleep env 500000000 w1)))
      else Some (None, light, w))"
  by pat_completeness auto
termination
  by (relation "measure (\<lambda>(env, limit, i, light, w). nat (limit + 1 - i))") auto

text \<open>
  \<open>Blink\<close> up to the end of its loop: the first \<open>SetState(blinkMax)\<close> and the loop. The
  product \<open>seconds*2\<close> wraps at 64 bits.
\<close>

definition Blink_oscillate ::
    "'w env \<Rightarrow> int \<Rightarrow> Light \<Rightarrow> 'w \<Rightarrow> (error option \<times> Light \<times> 'w) option" where
  "Blink_oscillate env seconds light w =
     (case SetState env blinkMax light w of
        None \<Rightarrow> None
      | Some (Some err, light1, w1) \<Rightarrow> Some (Some err, light1, w1)
      | Some (None, light1, w1) \<Rightarrow>
          Blink_loop env (signed_take_bit 63 (seconds * 2)) 0 light1 w1)"

text \<open>
  The patch of the last statement of \<open>Blink\<close>:
  \<open>LightState{On: originalPosition, Bri: uint8(originalBrightness)}\<close>.
\<close>

definition Blink_restore :: "bool \<Rightarrow> int \<Rightarrow> LightState" where
  "Blink_restore originalPosition originalBrightness =
     LightState_zero\<lparr>lsOn := originalPosition, lsBri := word_of_int originalBrightness\<rparr>"

text \<open>
  \<open>Blink\<close>. The error of the last \<open>SetState\<close> is dropped by the source, and \<open>nil\<close> is
  returned after it.
\<close>

definition Blink ::
    "'w env \<Rightarrow> int \<Rightarrow> Light \<Rightarrow> 'w \<Rightarrow> (error option \<times> Light \<times> 'w) option" where
  "Blink env seconds light w =
     (let originalPosition = On (State light);
          originalBrightness = Bri (State light) in
      case Blink_oscillate env seconds light w of
        None \<Rightarrow> None
      | Some (Some err, light2, w2) \<Rightarrow> Some (Some err, light2, w2)
      | Some (None, light2, w2) \<Rightarrow>
          if Bri (State light2) \<noteq> originalBrightness \<or> On (State light2) \<noteq> originalPosition
          then
            (case SetState env (Blink_restore originalPosition originalBrightness) light2 w2 of
               None \<Rightarrow> None
             | Some (err, light3, w3) \<Rightarrow> Some (None, light3, w3))
          else Some (None, light2, w2))"

text \<open>
  The oscillation as the specification describes it: a list of patches sent one after the
  other, half a second of sleep after each, stopping at the first error.
  \<open>blink_patches i limit\<close> is the list for the loop indices \<open>i, ..., limit\<close>. The loop of
  \<open>Blink\<close> is compared with them below.
\<close>

fun run_patches ::
    "'w env \<Rightarrow> LightState list \<Rightarrow> Light \<Rightarrow> 'w \<Rightarrow> (error option \<times> Light \<times> 'w) option" where
  "run_patches env [] light w = Some (None, light, w)"
| "run_patches env (p # ps) light w =
     (case SetState env p light w of
        None \<Rightarrow> None
      | Some (Some err, light1, w1) \<Rightarrow> Some (Some err, light1, w1)
      | Some (None, light1, w1) \<Rightarrow> run_patches env ps light1 (Sleep env 500000000 w1))"

definition blink_patches :: "int \<Rightarrow> int \<Rightarrow> LightState list" where
  "blink_patches i limit = map (\<lambda>j. if j mod 2 = 0 then blinkMax else blinkMin) [i..limit]"

section \<open>Observing a run\<close>

text \<open>
  The requests a call issues are not part of its result. To state which requests were
  made, an environment is wrapped so that its world carries a log of the URIs passed to
  \<open>Get\<close>; the wrapped collaborators answer as the original ones do.
\<close>

definition recording :: "'w env \<Rightarrow> ('w \<times> string list) env" where
  "recording env =
     \<lparr>Get = (\<lambda>bridge uri (w, log).
               case Get env bridge uri w of (r, w1) \<Rightarrow> (r, (w1, log @ [uri]))),
      Put = (\<lambda>bridge uri newState (w, log).
               case Put env bridge uri newState w of (r, w1) \<Rightarrow> (r, (w1, log))),
      Unmarshal = Unmarshal env,
      Trace = (\<lambda>message err (w, log). (Trace env message err w, log)),
      Sleep = (\<lambda>d (w, log). (Sleep env d w, log))\<rparr>"

text \<open>
  The world after fetching the indices \<open>1, ..., n\<close> one after the other, and the result of
  fetching index \<open>n\<close> in the world the fetches of \<open>1, ..., n - 1\<close> leave. They describe the
  sequential probing the specification speaks of; the loop of \<open>GetAllLights\<close> is compared
  with them.
\<close>

primrec world_after_probes :: "'w env \<Rightarrow> Bridge \<Rightarrow> nat \<Rightarrow> 'w \<Rightarrow> 'w" where
  "world_after_probes env bridge 0 w = w"
| "world_after_probes env bridge (Suc n) w =
     snd (GetLightByIndex env bridge (int (Suc n)) (world_after_probes env bridge n w))"

definition probe_result :: "'w env \<Rightarrow> Bridge \<Rightarrow> nat \<Rightarrow> 'w \<Rightarrow> Light \<times> error option" where
  "probe_result env bridge n w =
     fst (GetLightByIndex env bridge (int n) (world_after_probes env bridge (n - 1) w))"

section \<open>A scripted bridge for concrete runs\<close>

text \<open>
  A bridge whose answers are fixed per URI, and whose world is the log of what was asked
  of it. It is the environment of the concrete runs below.
\<close>

datatype event = GetEv string | PutEv string LightState | SleepEv nat | TraceEv string error

definition scripted ::
    "(string \<Rightarrow> string \<times> error option) \<Rightarrow> (string \<Rightarrow> LightState \<Rightarrow> error option) \<Rightarrow>
     (string \<Rightarrow> Light \<Rightarrow> Light \<times> error option) \<Rightarrow> event list env" where
  "scripted gets puts decode =
     \<lparr>Get = (\<lambda>bridge uri w. (gets uri, w @ [GetEv uri])),
      Put = (\<lambda>bridge uri newState w. (puts uri newState, w @ [PutEv uri newState])),
      Unmarshal = decode,
      Trace = (\<lambda>message err w. w @ [TraceEv message err]),
      Sleep = (\<lambda>d w. w @ [SleepEv d])\<rparr>"

text \<open>
  Response bodies: three lamps, the bridge's answer for a lamp it does not have, a body
  whose \<open>bri\<close> is a JSON string, and a body cut off in the middle.
\<close>

definition body_lamp :: string where
  \<open>body_lamp = ''{"state":{"on":true,"bri":200},"name":"Lamp"}''\<close>

definition body_desk :: string where
  \<open>body_desk = ''{"state":{"on":false,"bri":100},"name":"Desk"}''\<close>

definition body_absent :: string where
  \<open>body_absent = ''[{"error":{"type":3,"address":"/lights/3","description":"resource, /lights/3, not available"}}]''\<close>

definition body_hall :: string where
  \<open>body_hall = ''{"state":{"on":true,"bri":254},"name":"Hall"}''\<close>

definition body_mistyped :: string where
  \<open>body_mistyped = ''{"state":{"on":true,"bri":"x"}}''\<close>

definition body_truncated :: string where
  \<open>body_truncated = ''{"state":{"on":tr''\<close>

text \<open>
  \<open>json.Unmarshal\<close> on these bodies. On \<open>body_mistyped\<close> it stores \<open>on\<close>, skips the field
  \<open>bri\<close> whose value does not fit an \<open>int\<close>, and returns an \<open>UnmarshalTypeError\<close> (the
  package's documented rule: the field is skipped and the unmarshalling completed as
  best it can). A body that is not valid JSON is rejected before anything is stored.
\<close>

definition demo_unmarshal :: "string \<Rightarrow> Light \<Rightarrow> Light \<times> error option" where
  "demo_unmarshal body light =
     (if body = body_lamp then
        (light\<lparr>State := (State light)\<lparr>On := True, Bri := 200\<rparr>, Name := ''Lamp''\<rparr>, None)
      else if body = body_desk then
        (light\<lparr>State := (State light)\<lparr>On := False, Bri := 100\<rparr>, Name := ''Desk''\<rparr>, None)
      else if body = body_hall then
        (light\<lparr>State := (State light)\<lparr>On := True, Bri := 254\<rparr>, Name := ''Hall''\<rparr>, None)
      else if body = body_mistyped then
        (light\<lparr>State := (State light)\<lparr>On := True\<rparr>\<rparr>,
         Some (UnmarshalError ''json: cannot unmarshal string into Go value of type int''))
      else (light, Some (UnmarshalError ''unexpected end of JSON input'')))"

text \<open>
  Lamps 1, 2 and 4 exist, lamp 3 does not; lamps 5 and 6 answer with the two bodies that
  do not decode; any other \<open>Get\<close> times out. Every \<open>Put\<close> is accepted but the one to lamp 7.
\<close>

definition demo_gets :: "string \<Rightarrow> string \<times> error option" where
  "demo_gets uri =
     (if uri = ''/api/u/lights/1'' then (body_lamp, None)
      else if uri = ''/api/u/lights/2'' then (body_desk, None)
      else if uri = ''/api/u/lights/3'' then (body_absent, None)
      else if uri = ''/api/u/lights/4'' then (body_hall, None)
      else if uri = ''/api/u/lights/5'' then (body_mistyped, None)
      else if uri = ''/api/u/lights/6'' then (body_truncated, None)
      else ([], Some (BridgeError ''i/o timeout'')))"

definition demo_puts :: "string \<Rightarrow> LightState \<Rightarrow> error option" where
  "demo_puts uri newState =
     (if uri = ''/api/u/lights/7/state'' then Some (BridgeError ''connection refused'')
      else None)"

definition demo :: "event list env" where
  "demo = scripted demo_gets demo_puts demo_unmarshal"

definition demo_bridge :: Bridge where
  "demo_bridge = \<lparr>Username = ''u''\<rparr>"

text \<open>Mirrors held by a caller: \<open>mirror n\<close> is a mirror of lamp \<open>n\<close>, off at brightness 120.\<close>

definition mirror :: "int \<Rightarrow> Light" where
  "mirror n =
     Light_zero\<lparr>State := LightAttrs_zero\<lparr>On := False, Bri := 120\<rparr>, Name := ''Attic'',
                Index := n, Bridge := Some demo_bridge\<rparr>"

text \<open>The mirrors of lamps 1, 2 and 4 as \<open>GetLightByIndex\<close> builds them from the bodies.\<close>

definition lamp_light :: Light where
  "lamp_light =
     Light_zero\<lparr>State := LightAttrs_zero\<lparr>On := True, Bri := 200\<rparr>, Name := ''Lamp'',
                Index := 1, Bridge := Some demo_bridge\<rparr>"

definition desk_light :: Light where
  "desk_light =
     Light_zero\<lparr>State := LightAttrs_zero\<lparr>On := False, Bri := 100\<rparr>, Name := ''Desk'',
                Index := 2, Bridge := Some demo_bridge\<rparr>"

definition hall_light :: Light where
  "hall_light =
     Light_zero\<lparr>State := LightAttrs_zero\<lparr>On := True, Bri := 254\<rparr>, Name := ''Hall'',
                Index := 4, Bridge := Some demo_bridge\<rparr>"

section \<open>A bridge that does what it is told\<close>

text \<open>
  A bridge with one lamp, whose world is the lamp's power flag and brightness. A \<open>Put\<close>
  sets the power flag of the patch, and its brightness unless that is 0 (the field
  \<open>bri\<close> is \<open>omitempty\<close>, so a zero is not on the wire); a \<open>Get\<close> answers with the lamp's
  state as \<open>lamp_body\<close> writes it. \<open>obedient_unmarshal\<close> is \<open>json.Unmarshal\<close> on the three
  bodies the runs below meet, and \<open>obedient_light on bri\<close> the mirror \<open>GetLightByIndex\<close>
  builds from them for lamp 1.
\<close>

definition lamp_body :: "bool \<Rightarrow> int \<Rightarrow> string" where
  \<open>lamp_body on bri =
     ''{"state":{"on":'' @ (if on then ''true'' else ''false'') @ '',"bri":'' @ FormatInt bri
       @ ''},"name":"Lamp"}''\<close>

definition obedient_unmarshal :: "string \<Rightarrow> Light \<Rightarrow> Light \<times> error option" where
  "obedient_unmarshal body light =
     (if body = lamp_body True 200 then
        (light\<lparr>State := (State light)\<lparr>On := True, Bri := 200\<rparr>, Name := ''Lamp''\<rparr>, None)
      else if body = lamp_body True 50 then
        (light\<lparr>State := (State light)\<lparr>On := True, Bri := 50\<rparr>, Name := ''Lamp''\<rparr>, None)
      else if body = lamp_body False 120 then
        (light\<lparr>State := (State light)\<lparr>On := False, Bri := 120\<rparr>, Name := ''Lamp''\<rparr>, None)
      else (light, Some (UnmarshalError ''unexpected end of JSON input'')))"

definition obedient :: "(bool \<times> int) env" where
  "obedient =
     \<lparr>Get = (\<lambda>bridge uri (on, bri). ((lamp_body on bri, None), (on, bri))),
      Put = (\<lambda>bridge uri newState (on, bri).
               (None, (lsOn newState, if lsBri newState = 0 then bri else uint (lsBri newState)))),
      Unmarshal = obedient_unmarshal,
      Trace = (\<lambda>message err w. w),
      Sleep = (\<lambda>d w. w)\<rparr>"

definition obedient_light :: "bool \<Rightarrow> int \<Rightarrow> Light" where
  "obedient_light on bri =
     Light_zero\<lparr>State := LightAttrs_zero\<lparr>On := on, Bri := bri\<rparr>, Name := ''Lamp'',
                Index := 1, Bridge := Some demo_bridge\<rparr>"

section \<open>Library functions and basic facts\<close>

declare digits.simps [simp del]
declare GetAllLights_loop.simps [simp del]
declare Blink_loop.simps [simp del]

lemma HasPrefix_iff: "HasPrefix s p \<longleftrightarrow> (\<exists>c. s = p @ c)"
  by (induction s p rule: HasPrefix.induct) auto

text \<open>\<open>Contains\<close> is the substring test.\<close>

lemma Contains_iff: "Contains s substr \<longleftrightarrow> (\<exists>a c. s = a @ substr @ c)"
proof (induction s)
  case Nil
  then show ?case by simp
next
  case (Cons x s)
  show ?case
  proof
    assume "Contains (x # s) substr"
    then consider "HasPrefix (x # s) substr" | "Contains s substr" by auto
    then show "\<exists>a c. x # s = a @ substr @ c"
    proof cases
      case 1
      then obtain c where "x # s = substr @ c" by (auto simp: HasPrefix_iff)
      then have "x # s = [] @ substr @ c" by simp
      then show ?thesis by blast
    next
      case 2
      then obtain a c where "s = a @ substr @ c" using Cons.IH by blast
      then have "x # s = (x # a) @ substr @ c" by simp
      then show ?thesis by blast
    qed
  next
    assume "\<exists>a c. x # s = a @ substr @ c"
    then obtain a c where e: "x # s = a @ substr @ c" by blast
    show "Contains (x # s) substr"
    proof (cases a)
      case Nil
      then have "HasPrefix (x # s) substr" using e by (auto simp: HasPrefix_iff)
      then show ?thesis by simp
    next
      case (Cons y a')
      then have "s = a' @ substr @ c" using e by simp
      then have "Contains s substr" using Cons.IH by blast
      then show ?thesis by simp
    qed
  qed
qed

lemma FormatInt_digit:
  "FormatInt 1 = ''1''" "FormatInt 2 = ''2''" "FormatInt 3 = ''3''" "FormatInt 4 = ''4''"
  "FormatInt 5 = ''5''" "FormatInt 6 = ''6''" "FormatInt 7 = ''7''" "FormatInt 8 = ''8''"
  by code_simp+

lemmas demo_defs =
  demo_def scripted_def demo_gets_def demo_puts_def demo_unmarshal_def demo_bridge_def
  body_lamp_def body_desk_def body_absent_def body_hall_def body_mistyped_def
  body_truncated_def FormatInt_digit mirror_def lamp_light_def desk_light_def hall_light_def
  Light_zero_def LightAttrs_zero_def

lemma GetLightByIndex_error_zero:
  "GetLightByIndex env bridge index w = ((l, Some err), w') \<Longrightarrow> l = Light_zero"
  by (auto simp: GetLightByIndex_def Let_def split: prod.splits option.splits if_splits)

lemma GetLightByIndex_ok_fields:
  "GetLightByIndex env bridge index w = ((l, None), w') \<Longrightarrow>
     Index l = index \<and> Bridge l = Some bridge"
  by (auto simp: GetLightByIndex_def Let_def split: prod.splits option.splits if_splits)

text \<open>The fetches of the scripted bridge.\<close>

lemma demo_fetch_1:
  "GetLightByIndex demo demo_bridge 1 w = ((lamp_light, None), w @ [GetEv ''/api/u/lights/1''])"
  by (simp add: GetLightByIndex_def demo_defs)

lemma demo_fetch_2:
  "GetLightByIndex demo demo_bridge 2 w = ((desk_light, None), w @ [GetEv ''/api/u/lights/2''])"
  by (simp add: GetLightByIndex_def demo_defs)

lemma demo_fetch_3:
  "GetLightByIndex demo demo_bridge 3 w =
     ((Light_zero, Some (ErrorsNew ''Index Error'')), w @ [GetEv ''/api/u/lights/3''])"
  by (simp add: GetLightByIndex_def demo_defs)

lemma demo_fetch_4:
  "GetLightByIndex demo demo_bridge 4 w = ((hall_light, None), w @ [GetEv ''/api/u/lights/4''])"
  by (simp add: GetLightByIndex_def demo_defs)

lemma demo_fetch_5:
  "GetLightByIndex demo demo_bridge 5 w =
     ((Light_zero\<lparr>State := LightAttrs_zero\<lparr>On := True\<rparr>, Index := 5,
                  Bridge := Some demo_bridge\<rparr>, None),
      w @ [GetEv ''/api/u/lights/5'',
           TraceEv [] (UnmarshalError ''json: cannot unmarshal string into Go value of type int'')])"
  by (simp add: GetLightByIndex_def demo_defs)

lemma demo_fetch_6:
  "GetLightByIndex demo demo_bridge 6 w =
     ((Light_zero\<lparr>Index := 6, Bridge := Some demo_bridge\<rparr>, None),
      w @ [GetEv ''/api/u/lights/6'',
           TraceEv [] (UnmarshalError ''unexpected end of JSON input'')])"
  by (simp add: GetLightByIndex_def demo_defs)

lemma demo_fetch_8:
  "GetLightByIndex demo demo_bridge 8 w =
     ((Light_zero, Some (BridgeError ''i/o timeout'')), w @ [GetEv ''/api/u/lights/8''])"
  by (simp add: GetLightByIndex_def demo_defs)

lemma demo_sel:
  "Get demo bridge uri w = (demo_gets uri, w @ [GetEv uri])"
  "Put demo bridge uri newState w = (demo_puts uri newState, w @ [PutEv uri newState])"
  "Unmarshal demo = demo_unmarshal"
  "Trace demo message err w = w @ [TraceEv message err]"
  "Sleep demo d w = w @ [SleepEv d]"
  by (simp_all add: demo_def scripted_def)

lemma demo_Username: "Username demo_bridge = ''u''"
  by (simp add: demo_bridge_def)

lemma mirror_sel:
  "Bridge (mirror n) = Some demo_bridge" "Index (mirror n) = n"
  "On (State (mirror n)) = False" "Bri (State (mirror n)) = 120"
  by (simp_all add: mirror_def)

lemma demo_SetState_1:
  "SetState demo newState (mirror 1) w
     = Some (None, lamp_light, w @ [PutEv ''/api/u/lights/1/state'' newState, GetEv ''/api/u/lights/1''])"
  by (simp add: SetState_def mirror_sel demo_sel demo_puts_def demo_fetch_1 demo_Username FormatInt_digit)

lemma demo_SetState_2:
  "SetState demo newState (mirror 2) w
     = Some (None, desk_light, w @ [PutEv ''/api/u/lights/2/state'' newState, GetEv ''/api/u/lights/2''])"
  by (simp add: SetState_def mirror_sel demo_sel demo_puts_def demo_fetch_2 demo_Username FormatInt_digit)

section \<open>\<open>GetLightByIndex\<close>\<close>

text \<open>
  Claim C4, as amended. \<open>GetLightByIndex\<close> fails exactly when the transport \<open>Get\<close> fails
  or the body contains the marker \<open>not available\<close>. When the transport fails, the error
  returned is the transport's own, unchanged, with the zero \<open>Light\<close>; when the transport
  succeeds and the marker is present, the error is \<open>errors.New("Index Error")\<close>, with the
  zero \<open>Light\<close>; when the transport succeeds and the marker is absent, the call succeeds
  and returns what the decoder left, with \<open>Index\<close> the requested index and \<open>Bridge\<close> the
  given bridge.
\<close>

theorem GetLightByIndex_outcome:
  assumes "Get env bridge (''/api/'' @ Username bridge @ ''/lights/'' @ FormatInt index) w
             = ((body, gerr), w1)"
  shows "(Contains body ''not available'' \<longleftrightarrow> (\<exists>a c. body = a @ ''not available'' @ c))
       \<and> (snd (fst (GetLightByIndex env bridge index w)) \<noteq> None
            \<longleftrightarrow> gerr \<noteq> None \<or> Contains body ''not available'')
       \<and> (\<forall>e. gerr = Some e \<longrightarrow>
            GetLightByIndex env bridge index w = ((Light_zero, Some e), w1))
       \<and> (gerr = None \<and> Contains body ''not available'' \<longrightarrow>
            GetLightByIndex env bridge index w
              = ((Light_zero, Some (ErrorsNew ''Index Error'')), w1))
       \<and> (gerr = None \<and> \<not> Contains body ''not available'' \<longrightarrow>
            fst (GetLightByIndex env bridge index w)
              = ((fst (Unmarshal env body Light_zero))\<lparr>Index := index, Bridge := Some bridge\<rparr>,
                 None)
            \<and> Index (fst (fst (GetLightByIndex env bridge index w))) = index
            \<and> Bridge (fst (fst (GetLightByIndex env bridge index w))) = Some bridge)"
proof -
  have "Contains body ''not available'' \<longleftrightarrow> (\<exists>a c. body = a @ ''not available'' @ c)"
    by (rule Contains_iff)
  moreover have "(snd (fst (GetLightByIndex env bridge index w)) \<noteq> None
            \<longleftrightarrow> gerr \<noteq> None \<or> Contains body ''not available'')
       \<and> (\<forall>e. gerr = Some e \<longrightarrow>
            GetLightByIndex env bridge index w = ((Light_zero, Some e), w1))
       \<and> (gerr = None \<and> Contains body ''not available'' \<longrightarrow>
            GetLightByIndex env bridge index w
              = ((Light_zero, Some (ErrorsNew ''Index Error'')), w1))
       \<and> (gerr = None \<and> \<not> Contains body ''not available'' \<longrightarrow>
            fst (GetLightByIndex env bridge index w)
              = ((fst (Unmarshal env body Light_zero))\<lparr>Index := index, Bridge := Some bridge\<rparr>,
                 None)
            \<and> Index (fst (fst (GetLightByIndex env bridge index w))) = index
            \<and> Bridge (fst (fst (GetLightByIndex env bridge index w))) = Some bridge)"
    using assms
    by (cases gerr; cases "Unmarshal env body Light_zero";
        cases "snd (Unmarshal env body Light_zero)")
       (auto simp: GetLightByIndex_def Let_def)
  ultimately show ?thesis by (rule conjI)
qed

text \<open>
  C4 at lamp 3 of the scripted bridge, whose body carries the marker, and at lamp 1, whose
  body does not.
\<close>

theorem GetLightByIndex_outcome_witness:
  "GetLightByIndex demo demo_bridge 3 [] 
     = ((Light_zero, Some (ErrorsNew ''Index Error'')), [GetEv ''/api/u/lights/3''])
   \<and> Contains body_absent ''not available''
   \<and> fst (GetLightByIndex demo demo_bridge 1 []) = (lamp_light, None)
   \<and> Index lamp_light = 1 \<and> Bridge lamp_light = Some demo_bridge
   \<and> \<not> Contains body_lamp ''not available''"
proof -
  have g3: "Get demo demo_bridge (''/api/'' @ Username demo_bridge @ ''/lights/'' @ FormatInt 3) []
          = ((body_absent, None), [GetEv ''/api/u/lights/3''])"
    by (simp add: demo_def scripted_def demo_gets_def demo_bridge_def FormatInt_digit)
  have g1: "Get demo demo_bridge (''/api/'' @ Username demo_bridge @ ''/lights/'' @ FormatInt 1) []
          = ((body_lamp, None), [GetEv ''/api/u/lights/1''])"
    by (simp add: demo_def scripted_def demo_gets_def demo_bridge_def FormatInt_digit)
  have c3: "Contains body_absent ''not available''" by (simp add: body_absent_def)
  have c1: "\<not> Contains body_lamp ''not available''" by (simp add: body_lamp_def)
  have u1: "fst (Unmarshal demo body_lamp Light_zero)\<lparr>Index := 1, Bridge := Some demo_bridge\<rparr> = lamp_light"
    by (simp add: demo_defs)
  show ?thesis
    using GetLightByIndex_outcome [OF g3] GetLightByIndex_outcome [OF g1] c3 c1 u1
    by (simp add: lamp_light_def)
qed

text \<open>
  C4 as stated gives the "index" error also when the transport \<open>Get\<close> fails. The \<open>Get\<close> for
  lamp 8 of the scripted bridge times out: the error returned is that time-out, not
  \<open>Index Error\<close>.
\<close>

theorem GetLightByIndex_transport_error_counterexample:
  "fst (Get demo demo_bridge (''/api/'' @ Username demo_bridge @ ''/lights/'' @ FormatInt 8) [])
     = ([], Some (BridgeError ''i/o timeout''))
   \<and> snd (fst (GetLightByIndex demo demo_bridge 8 [])) = Some (BridgeError ''i/o timeout'')
   \<and> snd (fst (GetLightByIndex demo demo_bridge 8 [])) \<noteq> Some (ErrorsNew ''Index Error'')"
  by (simp add: demo_fetch_8) (simp add: demo_defs)

text \<open>
  Claim C10, as amended. When the transport succeeds, the body does not contain the marker
  and \<open>json.Unmarshal\<close> returns an error, \<open>GetLightByIndex\<close> passes the error to \<open>trace\<close>
  and returns success: the \<open>Light\<close> is the one the decoder left behind, with \<open>Index\<close> and
  \<open>Bridge\<close> set. Its attributes are all zero when the decoder stored nothing before it
  failed.
\<close>

theorem GetLightByIndex_swallows_decode_error:
  assumes "Get env bridge (''/api/'' @ Username bridge @ ''/lights/'' @ FormatInt index) w
             = ((body, None), w1)"
    and "\<not> Contains body ''not available''"
    and "Unmarshal env body Light_zero = (light, Some err)"
  shows "GetLightByIndex env bridge index w
           = ((light\<lparr>Index := index, Bridge := Some bridge\<rparr>, None), Trace env [] err w1)
       \<and> (light = Light_zero \<longrightarrow>
            fst (fst (GetLightByIndex env bridge index w))
              = Light_zero\<lparr>Index := index, Bridge := Some bridge\<rparr>
            \<and> State (fst (fst (GetLightByIndex env bridge index w))) = LightAttrs_zero)"
  using assms by (simp add: GetLightByIndex_def Let_def Light_zero_def)

text \<open>C10 at lamp 6, whose body is cut off: the decoder stores nothing.\<close>

theorem GetLightByIndex_swallows_decode_error_witness:
  "GetLightByIndex demo demo_bridge 6 []
     = ((Light_zero\<lparr>Index := 6, Bridge := Some demo_bridge\<rparr>, None),
        [GetEv ''/api/u/lights/6'', TraceEv [] (UnmarshalError ''unexpected end of JSON input'')])
   \<and> State (fst (fst (GetLightByIndex demo demo_bridge 6 []))) = LightAttrs_zero
   \<and> \<not> Contains body_truncated ''not available''
   \<and> Unmarshal demo body_truncated Light_zero
       = (Light_zero, Some (UnmarshalError ''unexpected end of JSON input''))"
proof -
  have g: "Get demo demo_bridge (''/api/'' @ Username demo_bridge @ ''/lights/'' @ FormatInt 6) []
          = ((body_truncated, None), [GetEv ''/api/u/lights/6''])"
    by (simp add: demo_def scripted_def demo_gets_def demo_bridge_def FormatInt_digit)
  have c: "\<not> Contains body_truncated ''not available''" by (simp add: body_truncated_def)
  have u: "Unmarshal demo body_truncated Light_zero
             = (Light_zero, Some (UnmarshalError ''unexpected end of JSON input''))"
    by (simp add: demo_defs)
  have t: "Trace demo [] (UnmarshalError ''unexpected end of JSON input'') [GetEv ''/api/u/lights/6'']
             = [GetEv ''/api/u/lights/6'', TraceEv [] (UnmarshalError ''unexpected end of JSON input'')]"
    by (simp add: demo_def scripted_def)
  show ?thesis
    using GetLightByIndex_swallows_decode_error [OF g c u] c u t by (simp add: Light_zero_def)
qed

text \<open>
  C10 as stated has every attribute zero after a failed decode. The body of lamp 5 has a
  JSON string where \<open>bri\<close> wants a number: the decoder stores \<open>on\<close>, reports the mismatch,
  and the \<open>Light\<close> returned with a \<open>nil\<close> error has \<open>On\<close> set.
\<close>

theorem GetLightByIndex_partial_decode_counterexample:
  "fst (Get demo demo_bridge (''/api/'' @ Username demo_bridge @ ''/lights/'' @ FormatInt 5) [])
     = (body_mistyped, None)
   \<and> \<not> Contains body_mistyped ''not available''
   \<and> snd (Unmarshal demo body_mistyped Light_zero) \<noteq> None
   \<and> snd (fst (GetLightByIndex demo demo_bridge 5 [])) = None
   \<and> On (State (fst (fst (GetLightByIndex demo demo_bridge 5 []))))
   \<and> State (fst (fst (GetLightByIndex demo demo_bridge 5 []))) \<noteq> LightAttrs_zero"
  by (simp add: demo_fetch_5) (simp add: demo_defs)

section \<open>\<open>Light.SetState\<close>\<close>

text \<open>
  Claim C5. If the \<open>Put\<close> issued by \<open>SetState\<close> returns an error, \<open>SetState\<close> returns that
  error and the mirror is as it was before the call.
\<close>

theorem SetState_put_error:
  assumes "Bridge light = Some bridge"
    and "Put env bridge (''/api/'' @ Username bridge @ ''/lights/'' @ FormatInt (Index light)
                           @ ''/state'') newState w = (Some err, w1)"
  shows "SetState env newState light w = Some (Some err, light, w1)"
  using assms by (simp add: SetState_def Let_def)

text \<open>C5 at lamp 7 of the scripted bridge, which refuses the \<open>Put\<close>.\<close>

theorem SetState_put_error_witness:
  "SetState demo (LightState_zero\<lparr>lsOn := True\<rparr>) (mirror 7) []
     = Some (Some (BridgeError ''connection refused''), mirror 7,
             [PutEv ''/api/u/lights/7/state'' (LightState_zero\<lparr>lsOn := True\<rparr>)])"
proof -
  have b: "Bridge (mirror 7) = Some demo_bridge" by (simp add: mirror_def)
  have p: "Put demo demo_bridge (''/api/'' @ Username demo_bridge @ ''/lights/''
               @ FormatInt (Index (mirror 7)) @ ''/state'') (LightState_zero\<lparr>lsOn := True\<rparr>) []
             = (Some (BridgeError ''connection refused''),
                [PutEv ''/api/u/lights/7/state'' (LightState_zero\<lparr>lsOn := True\<rparr>)])"
    by (simp add: demo_def scripted_def demo_puts_def demo_bridge_def mirror_def FormatInt_digit)
  show ?thesis using SetState_put_error [OF b p] by simp
qed

text \<open>
  Claim C9. If the \<open>Put\<close> succeeds and the fetch that follows fails, the mirror is
  overwritten with the zero \<open>Light\<close> and the error of the fetch is returned: every attribute
  is cleared, \<open>Index\<close> is 0 and \<open>Bridge\<close> is \<open>nil\<close>.
\<close>

theorem SetState_fetch_error_zeroes:
  assumes "Bridge light = Some bridge"
    and "Put env bridge (''/api/'' @ Username bridge @ ''/lights/'' @ FormatInt (Index light)
                           @ ''/state'') newState w = (None, w1)"
    and "GetLightByIndex env bridge (Index light) w1 = ((light', Some err), w2)"
  shows "SetState env newState light w = Some (Some err, Light_zero, w2)
       \<and> State Light_zero = LightAttrs_zero \<and> Type Light_zero = [] \<and> Name Light_zero = []
       \<and> ModelID Light_zero = [] \<and> ManufacturerName Light_zero = []
       \<and> UniqueID Light_zero = [] \<and> SWVersion Light_zero = []
       \<and> Index Light_zero = 0 \<and> Bridge Light_zero = None"
  using assms GetLightByIndex_error_zero [OF assms(3)]
  by (simp add: SetState_def Let_def) (simp add: Light_zero_def)

text \<open>C9 at a mirror of lamp 3, which the scripted bridge no longer has.\<close>

theorem SetState_fetch_error_zeroes_witness:
  "SetState demo (LightState_zero\<lparr>lsOn := True\<rparr>) (mirror 3) []
     = Some (Some (ErrorsNew ''Index Error''), Light_zero,
             [PutEv ''/api/u/lights/3/state'' (LightState_zero\<lparr>lsOn := True\<rparr>),
              GetEv ''/api/u/lights/3''])
   \<and> mirror 3 \<noteq> Light_zero \<and> Index (mirror 3) = 3 \<and> Bridge (mirror 3) = Some demo_bridge
   \<and> Index Light_zero = 0 \<and> Bridge Light_zero = None"
proof -
  have b: "Bridge (mirror 3) = Some demo_bridge" by (simp add: mirror_def)
  have p: "Put demo demo_bridge (''/api/'' @ Username demo_bridge @ ''/lights/''
               @ FormatInt (Index (mirror 3)) @ ''/state'') (LightState_zero\<lparr>lsOn := True\<rparr>) []
             = (None, [PutEv ''/api/u/lights/3/state'' (LightState_zero\<lparr>lsOn := True\<rparr>)])"
    by (simp add: demo_def scripted_def demo_puts_def demo_bridge_def mirror_def FormatInt_digit)
  have g: "GetLightByIndex demo demo_bridge (Index (mirror 3))
             [PutEv ''/api/u/lights/3/state'' (LightState_zero\<lparr>lsOn := True\<rparr>)]
           = ((Light_zero, Some (ErrorsNew ''Index Error'')),
              [PutEv ''/api/u/lights/3/state'' (LightState_zero\<lparr>lsOn := True\<rparr>),
               GetEv ''/api/u/lights/3''])"
    by (simp add: mirror_def demo_fetch_3)
  have m: "mirror 3 \<noteq> Light_zero \<and> Index (mirror 3) = 3"
    by (simp add: mirror_def Light_zero_def)
  show ?thesis using SetState_fetch_error_zeroes [OF b p g] b m by simp
qed

text \<open>
  Claim C1, as amended. When \<open>SetState\<close> succeeds, the mirror is the \<open>Light\<close> that
  \<open>GetLightByIndex\<close> fetched after the \<open>Put\<close>: what the decoder made of the body of that
  \<open>Get\<close>, for every attribute, with \<open>Index\<close> and \<open>Bridge\<close> as before the call. The \<open>On\<close> flag
  is the one that body reports, whatever the patch said.
\<close>

theorem SetState_success_replaces_mirror:
  assumes "SetState env newState light w = Some (None, light', w')"
  shows "\<exists>bridge w1 body w2.
           Bridge light = Some bridge
         \<and> Put env bridge (''/api/'' @ Username bridge @ ''/lights/'' @ FormatInt (Index light)
                              @ ''/state'') newState w = (None, w1)
         \<and> GetLightByIndex env bridge (Index light) w1 = ((light', None), w')
         \<and> Get env bridge (''/api/'' @ Username bridge @ ''/lights/'' @ FormatInt (Index light)) w1
             = ((body, None), w2)
         \<and> light' = (fst (Unmarshal env body Light_zero))\<lparr>Index := Index light,
                                                            Bridge := Bridge light\<rparr>
         \<and> Index light' = Index light \<and> Bridge light' = Bridge light
         \<and> On (State light') = On (State (fst (Unmarshal env body Light_zero)))"
proof -
  from assms obtain bridge where b: "Bridge light = Some bridge"
    by (auto simp: SetState_def split: option.splits)
  let ?uri = "''/api/'' @ Username bridge @ ''/lights/'' @ FormatInt (Index light)"
  from assms b obtain w1 where p: "Put env bridge (''/api/'' @ Username bridge @ ''/lights/''
      @ FormatInt (Index light) @ ''/state'') newState w = (None, w1)"
    by (auto simp: SetState_def Let_def split: prod.splits option.splits)
  from assms b p have g: "GetLightByIndex env bridge (Index light) w1 = ((light', None), w')"
    by (auto simp: SetState_def Let_def split: prod.splits option.splits)
  obtain body gerr w2 where gt: "Get env bridge ?uri w1 = ((body, gerr), w2)"
    by (metis prod.exhaust)
  from g gt have ge: "gerr = None"
    by (auto simp: GetLightByIndex_def Let_def split: option.splits)
  from g gt ge have l: "light' = (fst (Unmarshal env body Light_zero))\<lparr>Index := Index light,
                                                            Bridge := Bridge light\<rparr>"
    by (auto simp: GetLightByIndex_def Let_def b split: option.splits if_splits prod.splits)
  have "Index light' = Index light \<and> Bridge light' = Bridge light
         \<and> On (State light') = On (State (fst (Unmarshal env body Light_zero)))"
    by (simp add: l)
  with b p g gt ge l show ?thesis by blast
qed

text \<open>C1 at a mirror of lamp 1.\<close>

theorem SetState_success_replaces_mirror_witness:
  "SetState demo (LightState_zero\<lparr>lsOn := True\<rparr>) (mirror 1) []
       = Some (None, lamp_light,
               [PutEv ''/api/u/lights/1/state'' (LightState_zero\<lparr>lsOn := True\<rparr>),
                GetEv ''/api/u/lights/1''])
   \<and> (\<exists>bridge w1 body w2.
         Bridge (mirror 1) = Some bridge
       \<and> Put demo bridge (''/api/'' @ Username bridge @ ''/lights/'' @ FormatInt (Index (mirror 1))
                              @ ''/state'') (LightState_zero\<lparr>lsOn := True\<rparr>) [] = (None, w1)
       \<and> GetLightByIndex demo bridge (Index (mirror 1)) w1
            = ((lamp_light, None),
               [PutEv ''/api/u/lights/1/state'' (LightState_zero\<lparr>lsOn := True\<rparr>),
                GetEv ''/api/u/lights/1''])
       \<and> Get demo bridge (''/api/'' @ Username bridge @ ''/lights/'' @ FormatInt (Index (mirror 1))) w1
             = ((body, None), w2)
       \<and> lamp_light = (fst (Unmarshal demo body Light_zero))\<lparr>Index := Index (mirror 1),
                                                            Bridge := Bridge (mirror 1)\<rparr>
       \<and> Index lamp_light = Index (mirror 1) \<and> Bridge lamp_light = Bridge (mirror 1)
       \<and> On (State lamp_light) = On (State (fst (Unmarshal demo body Light_zero))))"
proof -
  have s: "SetState demo (LightState_zero\<lparr>lsOn := True\<rparr>) (mirror 1) []
       = Some (None, lamp_light,
               [PutEv ''/api/u/lights/1/state'' (LightState_zero\<lparr>lsOn := True\<rparr>),
                GetEv ''/api/u/lights/1''])"
    by (simp add: demo_SetState_1)
  show ?thesis using SetState_success_replaces_mirror [OF s] s by simp
qed

text \<open>
  C1 as stated has \<open>On\<close> true after every successful patch with \<open>on = true\<close>. Lamp 2 of the
  scripted bridge accepts the \<open>Put\<close> and still reports \<open>on: false\<close> to the \<open>Get\<close> that
  follows: \<open>SetState\<close> succeeds and the mirror is off.
\<close>

theorem SetState_on_flag_counterexample:
  "lsOn (LightState_zero\<lparr>lsOn := True\<rparr>)
   \<and> SetState demo (LightState_zero\<lparr>lsOn := True\<rparr>) (mirror 2) []
       = Some (None, desk_light,
               [PutEv ''/api/u/lights/2/state'' (LightState_zero\<lparr>lsOn := True\<rparr>),
                GetEv ''/api/u/lights/2''])
   \<and> \<not> On (State desk_light)"
  by (simp add: demo_SetState_2) (simp add: desk_light_def Light_zero_def LightAttrs_zero_def)

section \<open>\<open>GetAllLights\<close>\<close>

lemma first_failure_exists:
  "\<exists>k\<le>n. (\<forall>m. 1 \<le> m \<and> m \<le> k \<longrightarrow> P m) \<and> (k < n \<longrightarrow> \<not> P (Suc k))"
proof (induction n)
  case 0
  then show ?case by simp
next
  case (Suc n)
  then obtain k where k: "k \<le> n" "\<forall>m. 1 \<le> m \<and> m \<le> k \<longrightarrow> P m" "k < n \<longrightarrow> \<not> P (Suc k)"
    by blast
  show ?case
  proof (cases "k = n \<and> P (Suc n)")
    case True
    then have "\<forall>m. 1 \<le> m \<and> m \<le> Suc n \<longrightarrow> P m"
      using k(2) by (auto simp: le_Suc_eq)
    then show ?thesis by (intro exI [of _ "Suc n"]) simp
  next
    case False
    then have "k < Suc n \<longrightarrow> \<not> P (Suc k)" using k by (cases "k = n") auto
    with k show ?thesis by (intro exI [of _ k]) simp
  qed
qed

lemma GetAllLights_loop_prefix:
  assumes "n \<le> k" "k \<le> 100"
    and "\<forall>m. n < m \<and> m \<le> k \<longrightarrow> snd (probe_result env bridge m w) = None"
    and "k < 100 \<longrightarrow> snd (probe_result env bridge (Suc k) w) \<noteq> None"
  shows "GetAllLights_loop env bridge (int n + 1) acc (world_after_probes env bridge n w)
           = (acc @ map (\<lambda>m. fst (probe_result env bridge m w)) [Suc n..<Suc k],
              world_after_probes env bridge (min (Suc k) 100) w)"
  using assms
proof (induction "k - n" arbitrary: n acc)
  case 0
  then have nk: "n = k" by simp
  show ?case
  proof (cases "k < 100")
    case True
    obtain l e w' where f: "GetLightByIndex env bridge (int (Suc k)) (world_after_probes env bridge k w)
                 = ((l, e), w')"
      by (metis prod.exhaust)
    with True "0.prems"(4) have "e \<noteq> None" by (simp add: probe_result_def)
    then obtain err where "e = Some err" by blast
    with f True nk show ?thesis
      by (subst GetAllLights_loop.simps) (simp add: add.commute)
  next
    case False
    with "0.prems"(2) have "k = 100" by simp
    with nk show ?thesis by (subst GetAllLights_loop.simps) simp
  qed
next
  case (Suc d)
  then have lt: "n < k" by simp
  obtain l e w' where f: "GetLightByIndex env bridge (int (Suc n)) (world_after_probes env bridge n w)
                 = ((l, e), w')"
    by (metis prod.exhaust)
  from lt Suc.prems(3) have "snd (probe_result env bridge (Suc n) w) = None" by simp
  with f have e: "e = None" and l: "fst (probe_result env bridge (Suc n) w) = l"
    by (simp_all add: probe_result_def)
  have w': "world_after_probes env bridge (Suc n) w = w'" using f by simp
  have ih: "GetAllLights_loop env bridge (int (Suc n) + 1) (acc @ [l])
              (world_after_probes env bridge (Suc n) w)
           = ((acc @ [l]) @ map (\<lambda>m. fst (probe_result env bridge m w)) [Suc (Suc n)..<Suc k],
              world_after_probes env bridge (min (Suc k) 100) w)"
    using Suc.hyps(2) Suc.prems lt by (intro Suc.hyps(1)) auto
  have up: "[Suc n..<Suc k] = Suc n # [Suc (Suc n)..<Suc k]"
    using lt by (simp add: upt_conv_Cons)
  have "int n + 1 < 101" using lt Suc.prems(2) by simp
  then show ?case
    using f e l ih w' up
    by (subst GetAllLights_loop.simps) (simp add: add.commute)
qed

lemma GetAllLights_prefix_upto:
  assumes "k \<le> 100"
    and "\<forall>m\<in>{1..k}. snd (probe_result env bridge m w) = None"
    and "k < 100 \<longrightarrow> snd (probe_result env bridge (Suc k) w) \<noteq> None"
  shows "GetAllLights env bridge w
           = ((map (\<lambda>m. fst (probe_result env bridge m w)) [1..<Suc k], None),
              world_after_probes env bridge (min (Suc k) 100) w)
       \<and> (\<forall>j<k. Index (fst (fst (GetAllLights env bridge w)) ! j) = int j + 1)"
proof -
  have loop: "GetAllLights_loop env bridge (int 0 + 1) [] (world_after_probes env bridge 0 w)
           = ([] @ map (\<lambda>m. fst (probe_result env bridge m w)) [Suc 0..<Suc k],
              world_after_probes env bridge (min (Suc k) 100) w)"
    using assms by (intro GetAllLights_loop_prefix) auto
  then have r: "GetAllLights env bridge w
           = ((map (\<lambda>m. fst (probe_result env bridge m w)) [1..<Suc k], None),
              world_after_probes env bridge (min (Suc k) 100) w)"
    by (simp add: GetAllLights_def)
  have "Index (fst (fst (GetAllLights env bridge w)) ! j) = int j + 1" if "j < k" for j
  proof -
    have ok: "snd (probe_result env bridge (Suc j) w) = None" using assms(2) that by simp
    obtain l e w' where f: "GetLightByIndex env bridge (int (Suc j))
        (world_after_probes env bridge j w) = ((l, e), w')"
      by (metis prod.exhaust)
    with ok have "e = None" by (simp add: probe_result_def)
    with f have "Index l = int (Suc j)" by (auto dest: GetLightByIndex_ok_fields)
    with f have "Index (fst (probe_result env bridge (Suc j) w)) = int j + 1"
      by (simp add: probe_result_def)
    moreover have "[1..<Suc k] ! j = Suc j" using that by (simp add: nth_upt del: upt_Suc)
    ultimately show ?thesis using that by (simp add: r del: upt_Suc)
  qed
  with r show ?thesis by blast
qed

lemma demo_probe:
  "world_after_probes demo demo_bridge (Suc 0) w = w @ [GetEv ''/api/u/lights/1'']"
  "world_after_probes demo demo_bridge (Suc (Suc 0)) w = w @ [GetEv ''/api/u/lights/1'', GetEv ''/api/u/lights/2'']"
  "world_after_probes demo demo_bridge (Suc (Suc (Suc 0))) w = w @ [GetEv ''/api/u/lights/1'', GetEv ''/api/u/lights/2'', GetEv ''/api/u/lights/3'']"
  "probe_result demo demo_bridge (Suc 0) w = (lamp_light, None)"
  "probe_result demo demo_bridge (Suc (Suc 0)) w = (desk_light, None)"
  "probe_result demo demo_bridge (Suc (Suc (Suc 0))) w = (Light_zero, Some (ErrorsNew ''Index Error''))"
  by (simp_all add: probe_result_def demo_fetch_1 demo_fetch_2 demo_fetch_3)

text \<open>
  Claim C2. \<open>GetAllLights\<close> fetches the indices 1, 2, ... one after the other and stops at
  the first fetch that fails: for every bridge there is a \<open>k\<close> of at most 100 such that the
  fetches of \<open>1, ..., k\<close> succeed, the fetch of \<open>k + 1\<close> fails unless \<open>k = 100\<close>, and the
  result is exactly the mirrors of \<open>1, ..., k\<close> in this order (the mirror at position \<open>j\<close>
  has index \<open>j + 1\<close>), with a \<open>nil\<close> error.
\<close>

theorem GetAllLights_contiguous_prefix:
  "\<exists>k\<le>100.
      (\<forall>m\<in>{1..k}. snd (probe_result env bridge m w) = None)
    \<and> (k < 100 \<longrightarrow> snd (probe_result env bridge (Suc k) w) \<noteq> None)
    \<and> GetAllLights env bridge w
         = ((map (\<lambda>m. fst (probe_result env bridge m w)) [1..<Suc k], None),
            world_after_probes env bridge (min (Suc k) 100) w)
    \<and> (\<forall>j<k. Index (fst (fst (GetAllLights env bridge w)) ! j) = int j + 1)"
proof -
  obtain k where k: "k \<le> 100"
      "\<forall>m. 1 \<le> m \<and> m \<le> k \<longrightarrow> snd (probe_result env bridge m w) = None"
      "k < 100 \<longrightarrow> \<not> snd (probe_result env bridge (Suc k) w) = None"
    using first_failure_exists [of 100 "\<lambda>m. snd (probe_result env bridge m w) = None"]
    by blast
  from k(2) have b: "\<forall>m\<in>{1..k}. snd (probe_result env bridge m w) = None" by simp
  from GetAllLights_prefix_upto [OF k(1) b k(3)] k(1) b k(3)
  show ?thesis by blast
qed

text \<open>
  C2 at the scripted bridge, which has lamps 1, 2 and 4 and lacks lamp 3: the result is
  the mirrors of lamps 1 and 2, though lamp 4 exists.
\<close>

theorem GetAllLights_contiguous_prefix_witness:
  "GetAllLights demo demo_bridge []
     = (([lamp_light, desk_light], None),
        [GetEv ''/api/u/lights/1'', GetEv ''/api/u/lights/2'', GetEv ''/api/u/lights/3''])
   \<and> snd (probe_result demo demo_bridge 3 []) = Some (ErrorsNew ''Index Error'')
   \<and> fst (GetLightByIndex demo demo_bridge 4 []) = (hall_light, None)
   \<and> Index lamp_light = 1 \<and> Index desk_light = 2"
proof -
  from GetAllLights_contiguous_prefix [of demo demo_bridge "[]"]
  obtain k where k: "k \<le> 100"
      "\<forall>m\<in>{1..k}. snd (probe_result demo demo_bridge m []) = None"
      "k < 100 \<longrightarrow> snd (probe_result demo demo_bridge (Suc k) []) \<noteq> None"
      "GetAllLights demo demo_bridge []
         = ((map (\<lambda>m. fst (probe_result demo demo_bridge m [])) [1..<Suc k], None),
            world_after_probes demo demo_bridge (min (Suc k) 100) [])"
    by blast
  have "\<not> 3 \<le> k"
  proof
    assume "3 \<le> k"
    then have "Suc (Suc (Suc 0)) \<in> {1..k}" by simp
    with k(2) have "snd (probe_result demo demo_bridge (Suc (Suc (Suc 0))) []) = None" by blast
    then show False by (simp add: demo_probe)
  qed
  moreover have "k \<noteq> 0"
  proof
    assume "k = 0"
    with k(3) have "snd (probe_result demo demo_bridge (Suc 0) []) \<noteq> None" by simp
    then show False by (simp add: demo_probe)
  qed
  moreover have "k \<noteq> 1"
  proof
    assume "k = 1"
    with k(3) have "snd (probe_result demo demo_bridge (Suc (Suc 0)) []) \<noteq> None" by simp
    then show False by (simp add: demo_probe)
  qed
  ultimately have k2: "k = 2" by arith
  have u: "[1..<Suc 2] = [Suc 0, Suc (Suc 0)]" by (simp add: numeral_2_eq_2)
  have m: "min (Suc 2) 100 = Suc (Suc (Suc 0))" by simp
  show ?thesis
    using k(4) unfolding k2
    by (simp only: u m list.map demo_probe fst_conv)
       (simp add: demo_probe numeral_3_eq_3 demo_fetch_4 lamp_light_def desk_light_def)
qed

section \<open>\<open>GetLightByName\<close>\<close>

lemma GetLightByName_range_found:
  "\<exists>l\<in>set lights. Name l = name \<Longrightarrow>
     \<exists>pre l post. lights = pre @ l # post \<and> (\<forall>x\<in>set pre. Name x \<noteq> name) \<and> Name l = name
        \<and> GetLightByName_range lights name = (l, None)"
proof (induction lights)
  case Nil
  then show ?case by simp
next
  case (Cons a lights)
  show ?case
  proof (cases "Name a = name")
    case True
    then have "a # lights = [] @ a # lights \<and> (\<forall>x\<in>set []. Name x \<noteq> name) \<and> Name a = name
        \<and> GetLightByName_range (a # lights) name = (a, None)" by simp
    then show ?thesis by blast
  next
    case False
    with Cons.prems have "\<exists>l\<in>set lights. Name l = name" by auto
    then obtain pre l post where p: "lights = pre @ l # post" "\<forall>x\<in>set pre. Name x \<noteq> name"
       "Name l = name" "GetLightByName_range lights name = (l, None)"
      using Cons.IH by blast
    with False have "a # lights = (a # pre) @ l # post \<and> (\<forall>x\<in>set (a # pre). Name x \<noteq> name)
        \<and> Name l = name \<and> GetLightByName_range (a # lights) name = (l, None)" by simp
    then show ?thesis by blast
  qed
qed

lemma GetLightByName_range_missing:
  "\<forall>l\<in>set lights. Name l \<noteq> name \<Longrightarrow>
     GetLightByName_range lights name = (Light_zero, Some (ErrorsNew ''Light not found.''))"
  by (induction lights) auto

text \<open>
  Claim C7. \<open>GetLightByName\<close> runs \<open>GetAllLights\<close> and searches the returned sequence from
  the front for a mirror whose name is equal to the given one, byte for byte: it returns
  the first such mirror with a \<open>nil\<close> error when there is one, and the zero \<open>Light\<close>
  with the error \<open>Light not found.\<close> when there is none.
\<close>

theorem GetLightByName_exact_match:
  assumes "GetAllLights env bridge w = ((lights, e), w1)"
  shows "snd (GetLightByName env bridge name w) = w1
       \<and> ((\<exists>l\<in>set lights. Name l = name) \<longrightarrow>
            (\<exists>pre l post. lights = pre @ l # post \<and> (\<forall>x\<in>set pre. Name x \<noteq> name)
               \<and> Name l = name \<and> fst (GetLightByName env bridge name w) = (l, None)))
       \<and> ((\<forall>l\<in>set lights. Name l \<noteq> name) \<longrightarrow>
            fst (GetLightByName env bridge name w)
              = (Light_zero, Some (ErrorsNew ''Light not found.'')))"
  using assms GetLightByName_range_found [of lights name]
    GetLightByName_range_missing [of lights name]
  by (simp add: GetLightByName_def)

lemma demo_GetAllLights:
  "GetAllLights demo demo_bridge w
     = (([lamp_light, desk_light], None),
        w @ [GetEv ''/api/u/lights/1'', GetEv ''/api/u/lights/2'', GetEv ''/api/u/lights/3''])"
  unfolding GetAllLights_def
  apply (subst GetAllLights_loop.simps, simp add: demo_fetch_1)
  apply (subst GetAllLights_loop.simps, simp add: demo_fetch_2)
  apply (subst GetAllLights_loop.simps, simp add: demo_fetch_3)
  done

text \<open>
  C7 at the scripted bridge, whose lamps are named \<open>Lamp\<close> and \<open>Desk\<close>: \<open>Desk\<close> is found,
  \<open>desk\<close> is not.
\<close>

theorem GetLightByName_exact_match_witness:
  "fst (GetLightByName demo demo_bridge ''Desk'' []) = (desk_light, None)
   \<and> fst (GetLightByName demo demo_bridge ''desk'' [])
       = (Light_zero, Some (ErrorsNew ''Light not found.''))
   \<and> fst (fst (GetAllLights demo demo_bridge [])) = [lamp_light, desk_light]
   \<and> Name lamp_light = ''Lamp'' \<and> Name desk_light = ''Desk''"
proof -
  have n: "Name lamp_light = ''Lamp''" "Name desk_light = ''Desk''"
    by (simp_all add: lamp_light_def desk_light_def)
  have a: "GetAllLights demo demo_bridge []
     = (([lamp_light, desk_light], None),
        [] @ [GetEv ''/api/u/lights/1'', GetEv ''/api/u/lights/2'', GetEv ''/api/u/lights/3''])"
    by (rule demo_GetAllLights)
  have found: "\<exists>l\<in>set [lamp_light, desk_light]. Name l = ''Desk''" by (simp add: n)
  have missing: "\<forall>l\<in>set [lamp_light, desk_light]. Name l \<noteq> ''desk''" by (simp add: n)
  from GetLightByName_exact_match [OF a, of "''Desk''"] found
  obtain pre l post where p: "[lamp_light, desk_light] = pre @ l # post"
      "\<forall>x\<in>set pre. Name x \<noteq> ''Desk''" "Name l = ''Desk''"
      "fst (GetLightByName demo demo_bridge ''Desk'' []) = (l, None)"
    by blast
  have "l = desk_light"
  proof -
    from p(1) have "l \<in> set [lamp_light, desk_light]" by (metis in_set_conv_decomp)
    with p(3) n show ?thesis by auto
  qed
  with p(4) have d: "fst (GetLightByName demo demo_bridge ''Desk'' []) = (desk_light, None)"
    by simp
  from GetLightByName_exact_match [OF a, of "''desk''"] missing
  have m: "fst (GetLightByName demo demo_bridge ''desk'' [])
       = (Light_zero, Some (ErrorsNew ''Light not found.''))" by blast
  show ?thesis using d m n a by simp
qed

section \<open>The requests of \<open>GetAllLights\<close>\<close>

lemma recording_sel:
  "Get (recording env) bridge uri (w, log)
     = (fst (Get env bridge uri w), (snd (Get env bridge uri w), log @ [uri]))"
  "Unmarshal (recording env) = Unmarshal env"
  "Trace (recording env) message err (w, log) = (Trace env message err w, log)"
  by (simp_all add: recording_def split: prod.splits)

lemma GetLightByIndex_recording:
  "GetLightByIndex (recording env) bridge index (w, log)
     = (fst (GetLightByIndex env bridge index w),
        (snd (GetLightByIndex env bridge index w),
         log @ [''/api/'' @ Username bridge @ ''/lights/'' @ FormatInt index]))"
  by (simp add: GetLightByIndex_def Let_def recording_sel split: prod.splits option.splits)

lemma GetAllLights_loop_recording:
  assumes "1 \<le> n" "n \<le> 101"
  shows "\<exists>k. n - 1 \<le> k \<and> k \<le> 100
         \<and> GetAllLights_loop (recording env) bridge (int n) acc (w, log)
             = (fst (GetAllLights_loop env bridge (int n) acc w),
                (snd (GetAllLights_loop env bridge (int n) acc w),
                 log @ map (\<lambda>i. ''/api/'' @ Username bridge @ ''/lights/'' @ FormatInt (int i))
                         [n..<Suc k]))"
  using assms
proof (induction "101 - n" arbitrary: n acc w log)
  case 0
  then have n: "n = 101" by simp
  have "GetAllLights_loop (recording env) bridge (int n) acc (w, log) = (acc, (w, log))"
    using n by (subst GetAllLights_loop.simps) simp
  moreover have "GetAllLights_loop env bridge (int n) acc w = (acc, w)"
    using n by (subst GetAllLights_loop.simps) simp
  ultimately show ?case using n by (intro exI [of _ 100]) simp
next
  case (Suc d)
  then have lt: "n < 101" by simp
  let ?uri = "\<lambda>i. ''/api/'' @ Username bridge @ ''/lights/'' @ FormatInt (int i)"
  obtain l e w1 where f: "GetLightByIndex env bridge (int n) w = ((l, e), w1)"
    by (metis prod.exhaust)
  then have fr: "GetLightByIndex (recording env) bridge (int n) (w, log)
                   = ((l, e), (w1, log @ [?uri n]))"
    by (simp add: GetLightByIndex_recording)
  show ?case
  proof (cases e)
    case (Some err)
    have "GetAllLights_loop (recording env) bridge (int n) acc (w, log)
            = (acc, (w1, log @ [?uri n]))"
      using lt fr Some by (subst GetAllLights_loop.simps) simp
    moreover have "GetAllLights_loop env bridge (int n) acc w = (acc, w1)"
      using lt f Some by (subst GetAllLights_loop.simps) simp
    ultimately show ?thesis using lt Suc.prems by (intro exI [of _ n]) simp
  next
    case None
    have r1: "GetAllLights_loop (recording env) bridge (int n) acc (w, log)
            = GetAllLights_loop (recording env) bridge (int (Suc n)) (acc @ [l])
                (w1, log @ [?uri n])"
      using lt fr None by (subst GetAllLights_loop.simps) (simp add: add.commute)
    have r2: "GetAllLights_loop env bridge (int n) acc w
            = GetAllLights_loop env bridge (int (Suc n)) (acc @ [l]) w1"
      using lt f None by (subst GetAllLights_loop.simps) (simp add: add.commute)
    have "d = 101 - Suc n" "1 \<le> Suc n" "Suc n \<le> 101" using Suc.hyps(2) lt by simp_all
    from Suc.hyps(1) [OF this, of "acc @ [l]" w1 "log @ [?uri n]"]
    obtain k where k: "Suc n - 1 \<le> k" "k \<le> 100"
       "GetAllLights_loop (recording env) bridge (int (Suc n)) (acc @ [l]) (w1, log @ [?uri n])
          = (fst (GetAllLights_loop env bridge (int (Suc n)) (acc @ [l]) w1),
             (snd (GetAllLights_loop env bridge (int (Suc n)) (acc @ [l]) w1),
              (log @ [?uri n]) @ map ?uri [Suc n..<Suc k]))"
      by blast
    have "[n..<Suc k] = n # [Suc n..<Suc k]" using k(1) by (simp add: upt_conv_Cons)
    then have "(log @ [?uri n]) @ map ?uri [Suc n..<Suc k] = log @ map ?uri [n..<Suc k]"
      by simp
    with k r1 r2 show ?thesis by (intro exI [of _ k]) simp
  qed
qed

lemma GetAllLights_loop_length:
  "1 \<le> n \<Longrightarrow> n \<le> 101 \<Longrightarrow>
     length (fst (GetAllLights_loop env bridge (int n) acc w)) \<le> length acc + (101 - n)"
proof (induction "101 - n" arbitrary: n acc w)
  case 0
  then have "n = 101" by simp
  then show ?case by (subst GetAllLights_loop.simps) simp
next
  case (Suc d)
  then have lt: "n < 101" by simp
  obtain l e w1 where f: "GetLightByIndex env bridge (int n) w = ((l, e), w1)"
    by (metis prod.exhaust)
  show ?case
  proof (cases e)
    case (Some err)
    then show ?thesis using lt f by (subst GetAllLights_loop.simps) simp
  next
    case None
    have r2: "GetAllLights_loop env bridge (int n) acc w
            = GetAllLights_loop env bridge (int (Suc n)) (acc @ [l]) w1"
      using lt f None by (subst GetAllLights_loop.simps) (simp add: add.commute)
    have "d = 101 - Suc n" "1 \<le> Suc n" "Suc n \<le> 101" using Suc.hyps(2) lt by simp_all
    from Suc.hyps(1) [OF this, of "acc @ [l]" w1] r2 lt show ?thesis by simp
  qed
qed

text \<open>
  Claim C8. \<open>GetAllLights\<close> never returns an error, whatever the bridge answers, and
  returns at most 100 mirrors (none is a valid result). The URIs it passes to \<open>Get\<close> are
  those of the indices \<open>1, ..., k\<close> in this order, for some \<open>k\<close> of at most 100; recording
  them does not change the result.
\<close>

theorem GetAllLights_never_errors:
  "snd (fst (GetAllLights env bridge w)) = None
   \<and> length (fst (fst (GetAllLights env bridge w))) \<le> 100
   \<and> fst (GetAllLights (recording env) bridge (w, [])) = fst (GetAllLights env bridge w)
   \<and> (\<exists>k. k \<le> 100
        \<and> snd (snd (GetAllLights (recording env) bridge (w, [])))
            = map (\<lambda>i. ''/api/'' @ Username bridge @ ''/lights/'' @ FormatInt (int i))
                [1..<Suc k])"
proof -
  obtain k where k: "k \<le> 100"
    "GetAllLights_loop (recording env) bridge (int 1) [] (w, [])
       = (fst (GetAllLights_loop env bridge (int 1) [] w),
          (snd (GetAllLights_loop env bridge (int 1) [] w),
           [] @ map (\<lambda>i. ''/api/'' @ Username bridge @ ''/lights/'' @ FormatInt (int i))
                   [1..<Suc k]))"
    using GetAllLights_loop_recording [of 1 env bridge "[]" w "[]"] by auto
  have len: "length (fst (GetAllLights_loop env bridge (int 1) [] w)) \<le> 100"
    using GetAllLights_loop_length [of 1 env bridge "[]" w] by simp
  show ?thesis using k len
    by (auto simp: GetAllLights_def split: prod.splits simp del: upt_Suc)
qed

section \<open>\<open>Light.Blink\<close>\<close>

lemma Blink_loop_run_patches:
  "Blink_loop env limit i light w = run_patches env (blink_patches i limit) light w"
proof (induction env limit i light w rule: Blink_loop.induct)
  case (1 env limit i light w)
  show ?case
  proof (cases "i \<le> limit")
    case False
    then show ?thesis
      by (subst Blink_loop.simps) (simp add: blink_patches_def)
  next
    case True
    then have up: "[i..limit] = i # [i + 1..limit]" by (simp add: upto_rec1)
    show ?thesis
    proof (cases "i mod 2 = 0")
      case even: True
      show ?thesis
        using True even "1.IH"(1) [OF True even]
        by (subst Blink_loop.simps)
           (auto simp: blink_patches_def up split: option.splits prod.splits)
    next
      case odd: False
      show ?thesis
        using True odd "1.IH"(2) [OF True odd]
        by (subst Blink_loop.simps)
           (auto simp: blink_patches_def up split: option.splits prod.splits)
    qed
  qed
qed

lemma seconds_times_2:
  assumes "0 \<le> (seconds::int)" "seconds < 2 ^ 62"
  shows "signed_take_bit 63 (seconds * 2) = seconds * 2"
proof -
  have "- (2 ^ 63) \<le> seconds * 2 \<and> seconds * 2 < (2::int) ^ 63" using assms by simp
  then show ?thesis by (simp only: signed_take_bit_int_eq_self_iff)
qed

lemma Blink_oscillate_patches:
  assumes "0 \<le> seconds" "seconds < 2 ^ 62"
  shows "Blink_oscillate env seconds light w
           = (case SetState env blinkMax light w of
                None \<Rightarrow> None
              | Some (Some err, light1, w1) \<Rightarrow> Some (Some err, light1, w1)
              | Some (None, light1, w1) \<Rightarrow>
                  run_patches env (blink_patches 0 (seconds * 2)) light1 w1)
       \<and> length (blink_patches 0 (seconds * 2)) = nat (2 * seconds + 1)"
proof -
  have s: "signed_take_bit 63 (seconds * 2) = seconds * 2"
    using assms by (rule seconds_times_2)
  have l: "length (blink_patches 0 (seconds * 2)) = nat (2 * seconds + 1)"
    using assms(1) by (simp add: blink_patches_def mult.commute)
  show ?thesis
    by (simp only: Blink_oscillate_def s Blink_loop_run_patches l)
qed

lemma demo_SetState_lamp:
  assumes "Bridge light = Some demo_bridge" "Index light = 1"
  shows "SetState demo newState light w
     = Some (None, lamp_light, w @ [PutEv ''/api/u/lights/1/state'' newState, GetEv ''/api/u/lights/1''])"
  using assms
  by (simp add: SetState_def demo_sel demo_puts_def demo_fetch_1 demo_Username FormatInt_digit)

lemma lamp_sel: "Bridge lamp_light = Some demo_bridge" "Index lamp_light = 1"
  "On (State lamp_light) = True" "Bri (State lamp_light) = 200"
  by (simp_all add: lamp_light_def LightAttrs_zero_def)

lemma demo_Blink_oscillate_mirror:
  "Blink_oscillate demo 1 (mirror 1) []
     = Some (None, lamp_light,
         [PutEv ''/api/u/lights/1/state'' blinkMax, GetEv ''/api/u/lights/1'',
          PutEv ''/api/u/lights/1/state'' blinkMax, GetEv ''/api/u/lights/1'', SleepEv 500000000,
          PutEv ''/api/u/lights/1/state'' blinkMin, GetEv ''/api/u/lights/1'', SleepEv 500000000,
          PutEv ''/api/u/lights/1/state'' blinkMax, GetEv ''/api/u/lights/1'', SleepEv 500000000])"
  unfolding Blink_oscillate_def
  apply (simp add: demo_SetState_lamp mirror_sel)
  apply (subst Blink_loop.simps, simp add: demo_SetState_lamp lamp_sel demo_sel)
  apply (subst Blink_loop.simps, simp add: demo_SetState_lamp lamp_sel demo_sel)
  apply (subst Blink_loop.simps, simp add: demo_SetState_lamp lamp_sel demo_sel)
  apply (subst Blink_loop.simps, simp add: demo_SetState_lamp lamp_sel demo_sel)
  done

lemma SetState_success_fields:
  assumes "SetState env newState light w = Some (None, light', w')"
  shows "Index light' = Index light \<and> Bridge light' = Bridge light
       \<and> (\<exists>bridge. Bridge light = Some bridge)"
proof -
  from assms obtain bridge where b: "Bridge light = Some bridge"
    by (auto simp: SetState_def split: option.splits)
  from assms b obtain w1 where
    g: "GetLightByIndex env bridge (Index light) w1 = ((light', None), w')"
    by (auto simp: SetState_def Let_def split: prod.splits option.splits)
  from g have "Index light' = Index light \<and> Bridge light' = Some bridge"
    by (rule GetLightByIndex_ok_fields)
  with b show ?thesis by simp
qed

lemma run_patches_fields:
  "run_patches env ps light w = Some (None, light', w') \<Longrightarrow>
     Index light' = Index light \<and> Bridge light' = Bridge light"
proof (induction ps arbitrary: light w)
  case Nil
  then show ?case by simp
next
  case (Cons p ps)
  from Cons.prems obtain light1 w1 where
    s: "SetState env p light w = Some (None, light1, w1)"
    and r: "run_patches env ps light1 (Sleep env 500000000 w1) = Some (None, light', w')"
    by (auto split: option.splits prod.splits)
  from SetState_success_fields [OF s] Cons.IH [OF r] show ?case by simp
qed

lemma Blink_oscillate_fields:
  assumes "Blink_oscillate env seconds light w = Some (None, light2, w2)"
  shows "\<exists>bridge. Bridge light = Some bridge \<and> Bridge light2 = Some bridge
           \<and> Index light2 = Index light"
proof -
  from assms obtain light1 w1 where
    s: "SetState env blinkMax light w = Some (None, light1, w1)"
    and r: "Blink_loop env (signed_take_bit 63 (seconds * 2)) 0 light1 w1 = Some (None, light2, w2)"
    by (auto simp: Blink_oscillate_def split: option.splits prod.splits)
  from r have "Index light2 = Index light1 \<and> Bridge light2 = Bridge light1"
    by (simp add: Blink_loop_run_patches run_patches_fields)
  with SetState_success_fields [OF s] show ?thesis by auto
qed

lemma SetState_round_trip:
  assumes "Bridge light = Some bridge"
    and "Put env bridge (''/api/'' @ Username bridge @ ''/lights/'' @ FormatInt (Index light)
                           @ ''/state'') newState w = (None, w3)"
    and "Get env bridge (''/api/'' @ Username bridge @ ''/lights/'' @ FormatInt (Index light)) w3
           = ((body, None), w4)"
    and "\<not> Contains body ''not available''"
  shows "SetState env newState light w
           = Some (None,
                   (fst (Unmarshal env body Light_zero))\<lparr>Index := Index light,
                                                          Bridge := Bridge light\<rparr>,
                   (case snd (Unmarshal env body Light_zero) of
                      None \<Rightarrow> w4 | Some err \<Rightarrow> Trace env [] err w4))"
  using assms
  by (cases "Unmarshal env body Light_zero"; cases "snd (Unmarshal env body Light_zero)")
     (auto simp: SetState_def GetLightByIndex_def Let_def)

lemma Blink_success_oscillate:
  "Blink env seconds light w = Some (None, light', w') \<Longrightarrow>
     \<exists>light2 w2. Blink_oscillate env seconds light w = Some (None, light2, w2)"
  by (auto simp: Blink_def Let_def split: option.splits prod.splits if_splits)

lemma FormatInt_bri:
  "FormatInt 200 = ''200''" "FormatInt 50 = ''50''" "FormatInt 120 = ''120''"
  by code_simp+

lemma obedient_sel:
  "Get obedient bridge uri (on, bri) = ((lamp_body on bri, None), (on, bri))"
  "Put obedient bridge uri newState (on, bri)
     = (None, (lsOn newState, if lsBri newState = 0 then bri else uint (lsBri newState)))"
  "Unmarshal obedient = obedient_unmarshal"
  "Sleep obedient d w = w"
  by (simp_all add: obedient_def)

lemma obedient_bodies:
  "\<not> Contains (lamp_body True 200) ''not available''"
  "\<not> Contains (lamp_body True 50) ''not available''"
  "\<not> Contains (lamp_body False 120) ''not available''"
  by (simp_all add: lamp_body_def FormatInt_bri)

lemma obedient_decode:
  "obedient_unmarshal (lamp_body True 200) Light_zero
     = (Light_zero\<lparr>State := LightAttrs_zero\<lparr>On := True, Bri := 200\<rparr>, Name := ''Lamp''\<rparr>, None)"
  "obedient_unmarshal (lamp_body True 50) Light_zero
     = (Light_zero\<lparr>State := LightAttrs_zero\<lparr>On := True, Bri := 50\<rparr>, Name := ''Lamp''\<rparr>, None)"
  "obedient_unmarshal (lamp_body False 120) Light_zero
     = (Light_zero\<lparr>State := LightAttrs_zero\<lparr>On := False, Bri := 120\<rparr>, Name := ''Lamp''\<rparr>, None)"
  by (simp_all add: obedient_unmarshal_def lamp_body_def FormatInt_bri Light_zero_def)

lemma obedient_light_sel:
  "Bridge (obedient_light on bri) = Some demo_bridge" "Index (obedient_light on bri) = 1"
  "On (State (obedient_light on bri)) = on" "Bri (State (obedient_light on bri)) = bri"
  by (simp_all add: obedient_light_def LightAttrs_zero_def)

lemma obedient_SetState:
  assumes "Bridge light = Some demo_bridge" "Index light = 1"
  shows "SetState obedient blinkMax light (on, bri) = Some (None, obedient_light True 200, (True, 200))"
    and "SetState obedient blinkMin light (on, bri) = Some (None, obedient_light True 50, (True, 50))"
    and "SetState obedient (Blink_restore False 120) light (on, bri)
           = Some (None, obedient_light False 120, (False, 120))"
  using assms
  by (simp_all add: SetState_def GetLightByIndex_def Let_def obedient_sel obedient_bodies
        obedient_decode blinkMax_def blinkMin_def Blink_restore_def obedient_light_def)

lemma obedient_Blink_oscillate:
  assumes "Bridge light = Some demo_bridge" "Index light = 1"
  shows "Blink_oscillate obedient 1 light (on, bri)
           = Some (None, obedient_light True 200, (True, 200))"
  unfolding Blink_oscillate_def
  apply (simp add: obedient_SetState assms)
  apply (subst Blink_loop.simps, simp add: obedient_SetState obedient_light_sel obedient_sel)
  apply (subst Blink_loop.simps, simp add: obedient_SetState obedient_light_sel obedient_sel)
  apply (subst Blink_loop.simps, simp add: obedient_SetState obedient_light_sel obedient_sel)
  apply (subst Blink_loop.simps, simp add: obedient_SetState obedient_light_sel obedient_sel)
  done

text \<open>
  Claim C3, at \<open>seconds = 1\<close>. The claim has \<open>2 * seconds\<close> oscillation steps. The loop
  condition is \<open>i <= seconds*2\<close>, so the loop runs for \<open>i = 0, 1, 2\<close>: after the first
  \<open>SetState(blinkMax)\<close> the scripted bridge sees three steps, \<open>blinkMax\<close>, \<open>blinkMin\<close>,
  \<open>blinkMax\<close>, each followed by half a second of sleep. (\<open>Blink_oscillate_patches\<close> above
  gives \<open>2 * seconds + 1\<close> steps for every \<open>seconds\<close> from 0 on.)
\<close>

theorem Blink_three_steps:
  "Blink_oscillate demo 1 (mirror 1) []
     = Some (None, lamp_light,
         [PutEv ''/api/u/lights/1/state'' blinkMax, GetEv ''/api/u/lights/1'',
          PutEv ''/api/u/lights/1/state'' blinkMax, GetEv ''/api/u/lights/1'', SleepEv 500000000,
          PutEv ''/api/u/lights/1/state'' blinkMin, GetEv ''/api/u/lights/1'', SleepEv 500000000,
          PutEv ''/api/u/lights/1/state'' blinkMax, GetEv ''/api/u/lights/1'', SleepEv 500000000])
   \<and> length (blink_patches 0 (signed_take_bit 63 (1 * 2))) = 3"
proof -
  have "[0..2::int] = [0, 1, 2]" by (simp add: upto_rec1)
  then have "length (blink_patches 0 (signed_take_bit 63 (1 * 2))) = 3"
    by (simp add: blink_patches_def)
  with demo_Blink_oscillate_mirror show ?thesis by simp
qed

text \<open>
  Claim C6, as amended. Every successful \<open>Blink\<close> has a successful oscillation
  (\<open>Blink_success_oscillate\<close>), and after it the mirror has the \<open>Index\<close> and the \<open>Bridge\<close>
  of before the call. If it also has the power flag and the brightness of before the
  call, \<open>Blink\<close> sends nothing more and returns success with them. Otherwise \<open>Blink\<close> sends
  to the lamp's state URI the corrective patch whose power flag is the one of before the
  call and whose brightness is \<open>uint8\<close> of the brightness of before the call, every other
  field unset; when that \<open>Put\<close> and the \<open>Get\<close> that follows succeed and the body is without
  the marker, \<open>Blink\<close> returns success with the mirror decoded from that body, \<open>Index\<close> and
  \<open>Bridge\<close> as before the call, and its power flag and brightness are those of before the
  call exactly when the body reports them.
\<close>

theorem Blink_restore_outcome:
  assumes "Blink_oscillate env seconds light w = Some (None, light2, w2)"
  shows "\<exists>bridge.
           Bridge light = Some bridge \<and> Bridge light2 = Some bridge
         \<and> Index light2 = Index light
         \<and> (Bri (State light2) = Bri (State light) \<and> On (State light2) = On (State light) \<longrightarrow>
              Blink env seconds light w = Some (None, light2, w2)
              \<and> On (State (fst (snd (the (Blink env seconds light w))))) = On (State light)
              \<and> Bri (State (fst (snd (the (Blink env seconds light w))))) = Bri (State light))
         \<and> (\<forall>w3 body w4.
              (Bri (State light2) \<noteq> Bri (State light) \<or> On (State light2) \<noteq> On (State light))
              \<and> Put env bridge (''/api/'' @ Username bridge @ ''/lights/''
                                   @ FormatInt (Index light) @ ''/state'')
                   (LightState_zero\<lparr>lsOn := On (State light),
                                     lsBri := word_of_int (Bri (State light))\<rparr>) w2 = (None, w3)
              \<and> Get env bridge (''/api/'' @ Username bridge @ ''/lights/''
                                   @ FormatInt (Index light)) w3 = ((body, None), w4)
              \<and> \<not> Contains body ''not available'' \<longrightarrow>
              Blink env seconds light w
                = Some (None,
                        (fst (Unmarshal env body Light_zero))\<lparr>Index := Index light,
                                                               Bridge := Bridge light\<rparr>,
                        (case snd (Unmarshal env body Light_zero) of
                           None \<Rightarrow> w4 | Some err \<Rightarrow> Trace env [] err w4))
              \<and> (On (State (fst (snd (the (Blink env seconds light w))))) = On (State light)
                   \<and> Bri (State (fst (snd (the (Blink env seconds light w))))) = Bri (State light)
                 \<longleftrightarrow> On (State (fst (Unmarshal env body Light_zero))) = On (State light)
                   \<and> Bri (State (fst (Unmarshal env body Light_zero))) = Bri (State light)))"
proof -
  from Blink_oscillate_fields [OF assms] obtain bridge where
    b: "Bridge light = Some bridge" "Bridge light2 = Some bridge" "Index light2 = Index light"
    by blast
  have same: "Blink env seconds light w = Some (None, light2, w2)
              \<and> On (State (fst (snd (the (Blink env seconds light w))))) = On (State light)
              \<and> Bri (State (fst (snd (the (Blink env seconds light w))))) = Bri (State light)"
    if "Bri (State light2) = Bri (State light) \<and> On (State light2) = On (State light)"
    using assms that by (simp add: Blink_def)
  have differ: "Blink env seconds light w
                = Some (None,
                        (fst (Unmarshal env body Light_zero))\<lparr>Index := Index light,
                                                               Bridge := Bridge light\<rparr>,
                        (case snd (Unmarshal env body Light_zero) of
                           None \<Rightarrow> w4 | Some err \<Rightarrow> Trace env [] err w4))
              \<and> (On (State (fst (snd (the (Blink env seconds light w))))) = On (State light)
                   \<and> Bri (State (fst (snd (the (Blink env seconds light w))))) = Bri (State light)
                 \<longleftrightarrow> On (State (fst (Unmarshal env body Light_zero))) = On (State light)
                   \<and> Bri (State (fst (Unmarshal env body Light_zero))) = Bri (State light))"
    if d: "Bri (State light2) \<noteq> Bri (State light) \<or> On (State light2) \<noteq> On (State light)"
      and p: "Put env bridge (''/api/'' @ Username bridge @ ''/lights/''
                                   @ FormatInt (Index light) @ ''/state'')
                   (LightState_zero\<lparr>lsOn := On (State light),
                                     lsBri := word_of_int (Bri (State light))\<rparr>) w2 = (None, w3)"
      and g: "Get env bridge (''/api/'' @ Username bridge @ ''/lights/''
                                   @ FormatInt (Index light)) w3 = ((body, None), w4)"
      and c: "\<not> Contains body ''not available''"
    for w3 body w4
  proof -
    have "SetState env (Blink_restore (On (State light)) (Bri (State light))) light2 w2
           = Some (None,
                   (fst (Unmarshal env body Light_zero))\<lparr>Index := Index light2,
                                                          Bridge := Bridge light2\<rparr>,
                   (case snd (Unmarshal env body Light_zero) of
                      None \<Rightarrow> w4 | Some err \<Rightarrow> Trace env [] err w4))"
      using p g c b by (intro SetState_round_trip) (simp_all add: Blink_restore_def)
    then have "Blink env seconds light w
                = Some (None,
                        (fst (Unmarshal env body Light_zero))\<lparr>Index := Index light,
                                                               Bridge := Bridge light\<rparr>,
                        (case snd (Unmarshal env body Light_zero) of
                           None \<Rightarrow> w4 | Some err \<Rightarrow> Trace env [] err w4))"
      using assms d b by (auto simp: Blink_def)
    then show ?thesis by simp
  qed
  from b same differ show ?thesis by blast
qed

text \<open>
  C6 at the bridge that does what it is told. A mirror that is off at brightness 120, the
  lamp being so: the oscillation leaves lamp and mirror on at 200, the corrective patch
  turns the lamp off at 120, and \<open>Blink\<close> returns the mirror off at 120. A mirror that is
  on at brightness 200, the lamp being so: nothing is sent after the oscillation.
\<close>

theorem Blink_restore_outcome_witness:
  "Blink obedient 1 (mirror 1) (False, 120)
     = Some (None, obedient_light False 120, (False, 120))
   \<and> On (State (obedient_light False 120)) = On (State (mirror 1))
   \<and> Bri (State (obedient_light False 120)) = Bri (State (mirror 1))
   \<and> Index (obedient_light False 120) = Index (mirror 1)
   \<and> Bridge (obedient_light False 120) = Bridge (mirror 1)
   \<and> Blink_oscillate obedient 1 (mirror 1) (False, 120)
       = Some (None, obedient_light True 200, (True, 200))
   \<and> Blink obedient 1 (obedient_light True 200) (True, 200)
       = Some (None, obedient_light True 200, (True, 200))"
proof -
  have o1: "Blink_oscillate obedient 1 (mirror 1) (False, 120)
              = Some (None, obedient_light True 200, (True, 200))"
    by (rule obedient_Blink_oscillate) (simp_all add: mirror_sel)
  have o2: "Blink_oscillate obedient 1 (obedient_light True 200) (True, 200)
              = Some (None, obedient_light True 200, (True, 200))"
    by (rule obedient_Blink_oscillate) (simp_all add: obedient_light_sel)
  have d: "Bri (State (obedient_light True 200)) \<noteq> Bri (State (mirror 1))
             \<or> On (State (obedient_light True 200)) \<noteq> On (State (mirror 1))"
    by (simp add: obedient_light_sel mirror_sel)
  have p: "Put obedient demo_bridge (''/api/'' @ Username demo_bridge @ ''/lights/''
                                   @ FormatInt (Index (mirror 1)) @ ''/state'')
             (LightState_zero\<lparr>lsOn := On (State (mirror 1)),
                               lsBri := word_of_int (Bri (State (mirror 1)))\<rparr>) (True, 200)
            = (None, (False, 120))"
    by (simp add: obedient_sel mirror_sel LightState_zero_def)
  have g: "Get obedient demo_bridge (''/api/'' @ Username demo_bridge @ ''/lights/''
                                   @ FormatInt (Index (mirror 1))) (False, 120)
            = ((lamp_body False 120, None), (False, 120))"
    by (simp add: obedient_sel)
  have c: "\<not> Contains (lamp_body False 120) ''not available''"
    by (rule obedient_bodies)
  have u: "(fst (Unmarshal obedient (lamp_body False 120) Light_zero))
             \<lparr>Index := Index (mirror 1), Bridge := Bridge (mirror 1)\<rparr> = obedient_light False 120"
          "snd (Unmarshal obedient (lamp_body False 120) Light_zero) = None"
    by (simp_all add: obedient_sel obedient_decode obedient_light_def mirror_sel)
  from Blink_restore_outcome [OF o1] obtain bridge where
    b: "Bridge (mirror 1) = Some bridge"
    and corrective: "\<forall>w3 body w4.
          (Bri (State (obedient_light True 200)) \<noteq> Bri (State (mirror 1))
             \<or> On (State (obedient_light True 200)) \<noteq> On (State (mirror 1)))
          \<and> Put obedient bridge (''/api/'' @ Username bridge @ ''/lights/''
                                   @ FormatInt (Index (mirror 1)) @ ''/state'')
                (LightState_zero\<lparr>lsOn := On (State (mirror 1)),
                                  lsBri := word_of_int (Bri (State (mirror 1)))\<rparr>) (True, 200)
                = (None, w3)
          \<and> Get obedient bridge (''/api/'' @ Username bridge @ ''/lights/''
                                   @ FormatInt (Index (mirror 1))) w3 = ((body, None), w4)
          \<and> \<not> Contains body ''not available'' \<longrightarrow>
          Blink obedient 1 (mirror 1) (False, 120)
            = Some (None,
                    (fst (Unmarshal obedient body Light_zero))
                      \<lparr>Index := Index (mirror 1), Bridge := Bridge (mirror 1)\<rparr>,
                    (case snd (Unmarshal obedient body Light_zero) of
                       None \<Rightarrow> w4 | Some err \<Rightarrow> Trace obedient [] err w4))
          \<and> (On (State (fst (snd (the (Blink obedient 1 (mirror 1) (False, 120))))))
                 = On (State (mirror 1))
               \<and> Bri (State (fst (snd (the (Blink obedient 1 (mirror 1) (False, 120))))))
                 = Bri (State (mirror 1))
             \<longleftrightarrow> On (State (fst (Unmarshal obedient body Light_zero))) = On (State (mirror 1))
               \<and> Bri (State (fst (Unmarshal obedient body Light_zero))) = Bri (State (mirror 1)))"
    by blast
  from b have bd: "bridge = demo_bridge" by (simp add: mirror_sel)
  from corrective [rule_format, of "(False, 120)" "lamp_body False 120" "(False, 120)"]
    d p g c
  have r1: "Blink obedient 1 (mirror 1) (False, 120)
              = Some (None,
                      (fst (Unmarshal obedient (lamp_body False 120) Light_zero))
                        \<lparr>Index := Index (mirror 1), Bridge := Bridge (mirror 1)\<rparr>,
                      (case snd (Unmarshal obedient (lamp_body False 120) Light_zero) of
                         None \<Rightarrow> (False, 120) | Some err \<Rightarrow> Trace obedient [] err (False, 120)))"
    unfolding bd by blast
  have e: "Bri (State (obedient_light True 200)) = Bri (State (obedient_light True 200))
             \<and> On (State (obedient_light True 200)) = On (State (obedient_light True 200))"
    by simp
  from Blink_restore_outcome [OF o2] e
  have r2: "Blink obedient 1 (obedient_light True 200) (True, 200)
              = Some (None, obedient_light True 200, (True, 200))"
    by blast
  from r1 have r1': "Blink obedient 1 (mirror 1) (False, 120)
              = Some (None, obedient_light False 120, (False, 120))"
    unfolding u by simp
  show ?thesis
    using r1' r2 o1 by (simp add: obedient_light_sel mirror_sel)
qed

text \<open>
  C6 as stated has the power flag and the brightness of before the call after every
  successful \<open>Blink\<close>. Lamp 1 of the scripted bridge accepts every \<open>Put\<close>, the corrective
  one too, and keeps reporting \<open>on: true, bri: 200\<close>. For a mirror that was off at
  brightness 120, \<open>Blink\<close> returns success and leaves the mirror on at brightness 200.
\<close>

theorem Blink_not_restored_counterexample:
  "Blink demo 1 (mirror 1) []
     = Some (None, lamp_light,
         [PutEv ''/api/u/lights/1/state'' blinkMax, GetEv ''/api/u/lights/1'',
          PutEv ''/api/u/lights/1/state'' blinkMax, GetEv ''/api/u/lights/1'', SleepEv 500000000,
          PutEv ''/api/u/lights/1/state'' blinkMin, GetEv ''/api/u/lights/1'', SleepEv 500000000,
          PutEv ''/api/u/lights/1/state'' blinkMax, GetEv ''/api/u/lights/1'', SleepEv 500000000,
          PutEv ''/api/u/lights/1/state'' (Blink_restore False 120), GetEv ''/api/u/lights/1''])
   \<and> On (State (mirror 1)) = False \<and> On (State lamp_light) = True
   \<and> Bri (State (mirror 1)) = 120 \<and> Bri (State lamp_light) = 200"
  by (simp add: Blink_def demo_Blink_oscillate_mirror mirror_sel lamp_sel demo_SetState_lamp)

end
